theory Spec2Isabelle
  imports Main "HOL-Library.Char_ord" "HOL-Library.List_Lexorder" "HOL-Library.Sublist"
begin

section \<open>The sync command of repo (subcmds/sync.py)\<close>

text \<open>
  A shallow embedding of \<^verbatim>\<open>subcmds/sync.py\<close>: the fetch scheduler
  (\<^verbatim>\<open>_FetchHelper\<close>, \<^verbatim>\<open>_Fetch\<close>), the project list reconciliation
  (\<^verbatim>\<open>UpdateProjectList\<close>), the driver (\<^verbatim>\<open>Execute\<close>) and the self-upgrade
  check (\<^verbatim>\<open>_PostRepoFetch\<close>, \<^verbatim>\<open>_VerifyTag\<close>).

  Every function takes the world it runs in and returns it updated. The world holds the
  paths that exist on disk, the content of \<^verbatim>\<open>project.list\<close> and the
  trace of what the run did to its collaborators (prints, calls of \<^verbatim>\<open>Project\<close>
  methods, file system calls). What a collaborator answers is read from records
  (\<open>project\<close>, \<open>manifest\<close>, \<open>env\<close>). A function that can end in \<^verbatim>\<open>sys.exit\<close> or
  in an exception returns a \<open>result\<close>. What a collaborator does to the disk when it is
  called (a fetch, a checkout) is not modelled: the call is an event of the trace. The
  deletions and the write of \<^verbatim>\<open>UpdateProjectList\<close> are both: they change the world and
  are events.
\<close>

subsection \<open>Python strings and paths\<close>

definition newline :: char where
  "newline = CHR 0x0A"

definition slash :: char where
  "slash = CHR ''/''"

definition dquote :: char where
  "dquote = CHR 0x22"

text \<open>\<^verbatim>\<open>s.split(c)\<close> for a one-character separator: never the empty list.\<close>

fun split_char :: "char \<Rightarrow> string \<Rightarrow> string list" where
  "split_char c [] = [[]]"
| "split_char c (x # xs) =
     (if x = c then [] # split_char c xs
      else (case split_char c xs of
              [] \<Rightarrow> [[x]]
            | h # t \<Rightarrow> (x # h) # t))"

text \<open>\<^verbatim>\<open>sep.join(xs)\<close>.\<close>

fun join_str :: "string \<Rightarrow> string list \<Rightarrow> string" where
  "join_str sep [] = []"
| "join_str sep [x] = x"
| "join_str sep (x # y # ys) = x @ sep @ join_str sep (y # ys)"

text \<open>\<^verbatim>\<open>s.startswith(p)\<close> and the slice \<^verbatim>\<open>s[len(p):]\<close>.\<close>

definition startswith :: "string \<Rightarrow> string \<Rightarrow> bool" where
  "startswith s p = (take (length p) s = p)"

text \<open>
  \<^verbatim>\<open>posixpath.join(a, b)\<close>: an absolute \<open>b\<close> replaces \<open>a\<close>, otherwise the two are
  put together with one slash.
\<close>

definition os_path_join :: "string \<Rightarrow> string \<Rightarrow> string" where
  "os_path_join a b =
     (if startswith b [slash] then b
      else if a = [] \<or> last a = slash then a @ b
      else a @ [slash] @ b)"

text \<open>
  \<^verbatim>\<open>posixpath.dirname(p)\<close>: everything up to the last slash, with the trailing slashes
  of that head stripped unless the head is slashes only.
\<close>

definition os_path_dirname :: "string \<Rightarrow> string" where
  "os_path_dirname p =
     (let head = rev (dropWhile (\<lambda>c. c \<noteq> slash) (rev p)) in
      if head \<noteq> [] \<and> \<not> list_all (\<lambda>c. c = slash) head
      then rev (dropWhile (\<lambda>c. c = slash) (rev head))
      else head)"

subsection \<open>Results, events and the world\<close>

datatype exn =
    RepoChangedException "string list"
  | GitError
  | SocketError
  | OSError
  | ValueError
  | OtherError string

text \<open>
  How a call ends: it returns a value, the process exits (\<^verbatim>\<open>sys.exit\<close>), an exception
  leaves it, or it never returns (\<open>Blocks\<close>: an \<^verbatim>\<open>acquire\<close> that nobody releases).
\<close>

datatype 'a result =
    Return 'a
  | SysExit int
  | Raise exn
  | Blocks

datatype event =
    Print_stderr string
  | Print_stdout string
  | Call_PreSync string
  | Call_PostRepoUpgrade string
  | Call_Sync_NetworkHalf string
  | Call_Sync_LocalHalf string
  | New_SyncBuffer bool
  | Call_Finish
  | Call_Unload
  | Call_Override string
  | Call_GetApprovedManifest string "string option"
  | Write_manifest string string
  | Call_rmtree string
  | Call_rmdir string
  | Write_project_list string
  | Progress_update
  | Progress_end
  | Sem_acquire
  | Sem_release
  | Lock_acquire
  | Lock_release
  | Thread_start string
  | Thread_join string
  | Run_subprocess "string list"

text \<open>
  The disk is the set of the paths that exist. A path is the list of its components
  from the root, \<open>project_list\<close> is the content of
  \<^verbatim>\<open>os.path.join(repodir, 'project.list')\<close>, \<open>None\<close> when the file does not exist.
\<close>

type_synonym path = "string list"

record world =
  on_disk :: "path set"
  project_list :: "string option"
  trace :: "event list"

definition emit :: "event list \<Rightarrow> world \<Rightarrow> world" where
  "emit es w = w\<lparr>trace := trace w @ es\<rparr>"

subsection \<open>Projects and the manifest\<close>

text \<open>
  What \<^verbatim>\<open>sync.py\<close> reads from a \<^verbatim>\<open>Project\<close>. The fields in capitals are the answers
  of the collaborator when the run asks: \<open>Sync_NetworkHalf\<close> is what the call returns,
  \<open>HasChanges\<close>, \<open>LastFetch\<close> and \<open>Exists\<close> are the properties as read. A field that
  Python leaves \<^verbatim>\<open>None\<close> and only tests for truth is the empty string here.
\<close>

datatype 'a attempt =
    Returns 'a
  | Raises exn

record project =
  name :: string
  gitdir :: string
  worktree :: string
  relpath :: string
  revisionExpr :: string
  Sync_NetworkHalf :: bool
  HasChanges :: bool
  LastFetch :: int
  Exists :: bool
  describe_revision :: "string attempt"
  merge_branch :: string

text \<open>
  The manifest as the run reads it. Reloading it (\<^verbatim>\<open>_Unload\<close>, \<^verbatim>\<open>Override\<close>) is an
  event; \<open>projects\<close> is \<^verbatim>\<open>manifest.projects.values()\<close>, a dictionary keyed by project
  name, so the list can hold one relative path more than once.
\<close>

record manifest =
  projects :: "project list"
  manifest_server :: string
  manifestProject :: project
  repoProject :: project
  IsMirror :: bool
  notice :: string
  topdir :: string

subsection \<open>The options and the answers of the environment\<close>

text \<open>The options of lines 106 to 136; \<open>jobs\<close> is \<open>None\<close> when \<^verbatim>\<open>-j\<close> is not given.\<close>

record options =
  force_broken :: bool
  local_only :: bool
  network_only :: bool
  detach_head :: bool
  quiet :: bool
  jobs :: "int option"
  smart_sync :: bool
  no_repo_verify :: bool
  repo_upgraded :: bool

text \<open>
  What the run reads from outside the manifest: \<open>IsDirty\<close> of the transient project of a
  path, the failures of \<^verbatim>\<open>rmtree\<close> and \<^verbatim>\<open>rmdir\<close>, the two variables of \<^verbatim>\<open>os.environ\<close>, what the manifest server answers, whether
  the override manifest can be written, what \<^verbatim>\<open>syncbuf.Finish()\<close> returns for the three
  ledgers, the result of \<^verbatim>\<open>GetProjects\<close>, the clock, whether \<^verbatim>\<open>~/.repoconfig/gnupg\<close>
  exists, and what \<^verbatim>\<open>git tag -v\<close> exits with and prints.
\<close>

record env =
  IsDirty :: "string \<Rightarrow> bool"
  rmtree_error :: "string \<Rightarrow> path set option"
  rmdir_error :: "string \<Rightarrow> bool"
  TARGET_PRODUCT :: "string option"
  TARGET_BUILD_VARIANT :: "string option"
  GetApprovedManifest :: "(bool \<times> string) attempt"
  manifest_write_ok :: bool
  manifest_Finish :: bool
  repo_Finish :: bool
  projects_Finish :: bool
  GetProjects :: "project list"
  now :: int
  gpg_dir_exists :: bool
  tag_verify_exit :: int
  tag_verify_out :: string
  tag_verify_err :: string
  head_describe :: string

subsection \<open>The file system\<close>

text \<open>
  How the system reads a path name: component by component from the root (the names
  the code uses start with \<^verbatim>\<open>manifest.topdir\<close>, which is absolute). An empty component
  and \<open>.\<close> stay in the directory, \<open>..\<close> goes to its parent, a name goes to that entry,
  which must exist. There are no symbolic links. \<open>lookup\<close> is \<open>None\<close> when a component
  does not exist.
\<close>

fun walk :: "path set \<Rightarrow> path \<Rightarrow> string list \<Rightarrow> path option" where
  "walk D cur [] = Some cur"
| "walk D cur (c # cs) =
     (if c = [] \<or> c = ''.'' then walk D cur cs
      else if c = ''..'' then walk D (butlast cur) cs
      else if cur @ [c] \<in> D then walk D (cur @ [c]) cs
      else None)"

definition lookup :: "path set \<Rightarrow> string \<Rightarrow> path option" where
  "lookup D s = walk D [] (split_char slash s)"

text \<open>\<^verbatim>\<open>os.path.exists(s)\<close>.\<close>

definition os_path_exists :: "world \<Rightarrow> string \<Rightarrow> bool" where
  "os_path_exists w s = (s \<noteq> [] \<and> lookup (on_disk w) s \<noteq> None)"

text \<open>The last component of a path name that is not empty.\<close>

definition last_component :: "string \<Rightarrow> string" where
  "last_component s =
     (case filter (\<lambda>c. c \<noteq> []) (split_char slash s) of [] \<Rightarrow> [] | c # cs \<Rightarrow> last (c # cs))"

text \<open>
  \<^verbatim>\<open>shutil.rmtree(s)\<close> deletes what is beneath the entry of \<open>s\<close> and then the entry
  itself. It raises \<^verbatim>\<open>OSError\<close> when \<open>s\<close> does not exist; when the entry is a regular
  file or a symbolic link, or an entry cannot be deleted: \<open>rmtree_error e s\<close> is then
  the set of the entries it leaves on disk; and when the entry itself cannot be removed
  after its content, because it is the root or the last component of \<open>s\<close> is \<open>.\<close> or
  \<open>..\<close>. Line 230 has no \<^verbatim>\<open>try\<close>: the exception leaves \<^verbatim>\<open>UpdateProjectList\<close>.
\<close>

definition without_tree :: "path \<Rightarrow> path set \<Rightarrow> path set" where
  "without_tree p D = {q \<in> D. \<not> prefix p q}"

definition without_content :: "path \<Rightarrow> path set \<Rightarrow> path set" where
  "without_content p D = {q \<in> D. \<not> strict_prefix p q}"

definition rmtree :: "env \<Rightarrow> string \<Rightarrow> world \<Rightarrow> unit result \<times> world" where
  "rmtree e s w =
     (let w1 = emit [Call_rmtree s] w in
      case lookup (on_disk w) s of
        None \<Rightarrow> (Raise OSError, w1)
      | Some p \<Rightarrow>
          (case rmtree_error e s of
             Some left \<Rightarrow>
               (Raise OSError,
                w1\<lparr>on_disk := without_tree p (on_disk w) \<union> (on_disk w \<inter> left)\<rparr>)
           | None \<Rightarrow>
               (if p = [] \<or> last_component s = ''.'' \<or> last_component s = ''..''
                then (Raise OSError, w1\<lparr>on_disk := without_content p (on_disk w)\<rparr>)
                else (Return (), w1\<lparr>on_disk := without_tree p (on_disk w)\<rparr>))))"

text \<open>
  \<^verbatim>\<open>os.rmdir(s)\<close> removes an existing, empty directory that is not the root. It raises
  \<^verbatim>\<open>OSError\<close> otherwise, also when the last component of \<open>s\<close> is \<open>.\<close> or \<open>..\<close>, and
  when the system refuses for a reason of its own (\<open>rmdir_error e s\<close>).
\<close>

definition rmdir_succeeds :: "env \<Rightarrow> string \<Rightarrow> world \<Rightarrow> bool" where
  "rmdir_succeeds e s w =
     (case lookup (on_disk w) s of
        None \<Rightarrow> False
      | Some p \<Rightarrow>
          p \<noteq> [] \<and> \<not> (\<exists>q \<in> on_disk w. strict_prefix p q)
          \<and> last_component s \<noteq> ''.'' \<and> last_component s \<noteq> ''..''
          \<and> \<not> rmdir_error e s)"

definition rmdir :: "string \<Rightarrow> world \<Rightarrow> world" where
  "rmdir s w =
     emit [Call_rmdir s]
       (w\<lparr>on_disk := (case lookup (on_disk w) s of
                        None \<Rightarrow> on_disk w
                      | Some p \<Rightarrow> on_disk w - {p})\<rparr>)"

lemma length_dropWhile_le_aux: "length (dropWhile P xs) \<le> length xs"
  by (induction xs) auto

lemma os_path_dirname_shorter:
  assumes "d \<noteq> []" and "\<not> list_all (\<lambda>c. c = slash) d"
  shows "length (os_path_dirname d) < length d"
proof -
  define head where "head = rev (dropWhile (\<lambda>c. c \<noteq> slash) (rev d))"
  have hl: "length head \<le> length d"
    unfolding head_def using length_dropWhile_le_aux [of "\<lambda>c. c \<noteq> slash" "rev d"] by simp
  show ?thesis
  proof (cases "head \<noteq> [] \<and> \<not> list_all (\<lambda>c. c = slash) head")
    case True
    then have ne: "rev head \<noteq> []" by simp
    have "hd (rev head) = slash"
      unfolding head_def rev_rev_ident
      using True hd_dropWhile [of "\<lambda>c. c \<noteq> slash" "rev d"]
      by (auto simp: head_def)
    then have "dropWhile (\<lambda>c. c = slash) (rev head) = dropWhile (\<lambda>c. c = slash) (tl (rev head))"
      using ne by (cases "rev head") auto
    then have "length (dropWhile (\<lambda>c. c = slash) (rev head)) \<le> length (tl (rev head))"
      using length_dropWhile_le_aux [of "\<lambda>c. c = slash" "tl (rev head)"] by simp
    also have "\<dots> < length head" using ne by (cases "rev head") (auto dest: arg_cong [of _ _ length])
    finally have "length (rev (dropWhile (\<lambda>c. c = slash) (rev head))) < length head" by simp
    moreover have "os_path_dirname d = rev (dropWhile (\<lambda>c. c = slash) (rev head))"
      using True by (simp add: os_path_dirname_def head_def Let_def)
    ultimately show ?thesis using hl by simp
  next
    case False
    then have eq: "os_path_dirname d = head"
      by (auto simp: os_path_dirname_def head_def Let_def)
    have "head \<noteq> d"
    proof
      assume "head = d"
      with False assms show False by simp
    qed
    moreover have "length head = length d \<Longrightarrow> head = d"
    proof -
      assume l: "length head = length d"
      have "length (dropWhile (\<lambda>c. c \<noteq> slash) (rev d)) = length (rev d)"
        using l by (simp add: head_def)
      then have "dropWhile (\<lambda>c. c \<noteq> slash) (rev d) = rev d"
        by (metis dropWhile_eq_drop drop_eq_Nil2 append_take_drop_id length_append
            add_diff_cancel_right' length_0_conv takeWhile_dropWhile_id self_append_conv2
            add_cancel_left_left)
      then show "head = d" by (simp add: head_def)
    qed
    ultimately show ?thesis using hl eq by (cases "length head = length d") auto
  qed
qed

lemma split_char_slashes:
  "list_all (\<lambda>c. c = slash) s \<Longrightarrow> list_all (\<lambda>x. x = []) (split_char slash s)"
  by (induction s) auto

lemma walk_empty_components:
  "list_all (\<lambda>x. x = []) cs \<Longrightarrow> walk D cur cs = Some cur"
  by (induction cs) auto

lemma rmdir_succeeds_not_root:
  assumes "rmdir_succeeds e s w"
  shows "s \<noteq> [] \<and> \<not> list_all (\<lambda>c. c = slash) s"
proof -
  have "list_all (\<lambda>c. c = slash) s \<Longrightarrow> lookup (on_disk w) s = Some []"
    unfolding lookup_def by (intro walk_empty_components split_char_slashes)
  with assms show ?thesis
    by (auto simp: rmdir_succeeds_def split: option.splits)
qed

subsection \<open>UpdateProjectList (lines 190 to 247)\<close>

text \<open>
  The loop of lines 232 to 238: from the parent of the deleted tree upwards, remove
  directories while they are empty, until the name is that of the top directory.
\<close>

function prune_parents :: "env \<Rightarrow> string \<Rightarrow> string \<Rightarrow> world \<Rightarrow> world" where
  "prune_parents e tdir d w =
     (if d = tdir then w
      else if rmdir_succeeds e d w
      then prune_parents e tdir (os_path_dirname d) (rmdir d w)
      else w)"
  by pat_completeness auto
termination
  by (relation "measure (\<lambda>(e, tdir, d, w). length d)")
     (auto dest!: rmdir_succeeds_not_root simp: os_path_dirname_shorter)

declare prune_parents.simps [simp del]

text \<open>
  Lines 191 to 194: the relative paths of the manifest's projects, in the order of
  \<^verbatim>\<open>manifest.projects.values()\<close>, those with an empty path left out.
\<close>

definition new_project_paths :: "manifest \<Rightarrow> string list" where
  "new_project_paths m = map relpath (filter (\<lambda>p. relpath p \<noteq> []) (projects m))"

text \<open>
  The loop of lines 205 to 238 over the old paths. \<open>None\<close>: the loop ran to its end;
  \<open>Some r\<close>: the function ended with \<open>r\<close> inside the loop, by the \<^verbatim>\<open>return -1\<close> of line
  227 or by the \<^verbatim>\<open>OSError\<close> of \<^verbatim>\<open>rmtree\<close>. The existence test of line 211 reads
  \<^verbatim>\<open>topdir + '/' + path\<close>, the working tree of lines 218 and 230 is
  \<^verbatim>\<open>os.path.join(topdir, path)\<close>, and line 208 compares the strings. \<open>IsDirty e path\<close>
  is what \<^verbatim>\<open>IsDirty()\<close> answers for the transient project of \<open>path\<close>.
\<close>

fun remove_obsolete ::
  "env \<Rightarrow> string \<Rightarrow> string list \<Rightarrow> string list \<Rightarrow> world \<Rightarrow> int result option \<times> world"
where
  "remove_obsolete e tdir new [] w = (None, w)"
| "remove_obsolete e tdir new (path # rest) w =
     (if path = [] then remove_obsolete e tdir new rest w
      else if path \<in> set new then remove_obsolete e tdir new rest w
      else if \<not> os_path_exists w (tdir @ [slash] @ path) then remove_obsolete e tdir new rest w
      else if IsDirty e path
      then (Some (Return (- 1)),
            emit [Print_stderr (''error: Cannot remove project '' @ [dquote] @ path @ [dquote]
                                @ '': uncommitted changes are present''),
                  Print_stderr ''       commit changes, then run sync again''] w)
      else (let tree = os_path_join tdir path in
            case rmtree e tree
                   (emit [Print_stderr (''Deleting obsolete path '' @ tree)] w) of
              (Return u, w1) \<Rightarrow>
                remove_obsolete e tdir new rest
                  (prune_parents e tdir (os_path_dirname tree) w1)
            | (SysExit n, w1) \<Rightarrow> (Some (SysExit n), w1)
            | (Raise x, w1) \<Rightarrow> (Some (Raise x), w1)
            | (Blocks, w1) \<Rightarrow> (Some Blocks, w1)))"

text \<open>Lines 240 to 247: sort, write the paths joined by newlines and one more newline.\<close>

definition project_list_content :: "string list \<Rightarrow> string" where
  "project_list_content new = join_str [newline] (sort new) @ [newline]"

definition write_project_list :: "string list \<Rightarrow> world \<Rightarrow> world" where
  "write_project_list new w =
     emit [Write_project_list (project_list_content new)]
       (w\<lparr>project_list := Some (project_list_content new)\<rparr>)"

definition UpdateProjectList :: "manifest \<Rightarrow> env \<Rightarrow> world \<Rightarrow> int result \<times> world" where
  "UpdateProjectList m e w =
     (let new = new_project_paths m in
      case project_list w of
        None \<Rightarrow> (Return 0, write_project_list new w)
      | Some content \<Rightarrow>
          (case remove_obsolete e (topdir m) new (split_char newline content) w of
             (Some r, w') \<Rightarrow> (r, w')
           | (None, w') \<Rightarrow> (Return 0, write_project_list new w')))"

subsection \<open>The fetch scheduler (lines 138 to 188)\<close>

text \<open>
  \<^verbatim>\<open>_FetchHelper\<close>, the body of one worker thread. It returns how the thread ends, the
  shared set \<open>fetched\<close> and the world. \<open>FetchHelper_add\<close> is lines 147 to 151, which
  follow the \<^verbatim>\<open>if\<close> of line 139: after a failed fetch with \<^verbatim>\<open>force_broken\<close> set the
  code prints and goes on there.
\<close>

definition FetchHelper_add ::
  "project \<Rightarrow> string set \<Rightarrow> world \<Rightarrow> unit result \<times> string set \<times> world"
where
  "FetchHelper_add project fetched w =
     (Return (), insert (gitdir project) fetched,
      emit [Lock_acquire, Progress_update, Lock_release, Sem_release] w)"

definition FetchHelper ::
  "options \<Rightarrow> project \<Rightarrow> string set \<Rightarrow> world \<Rightarrow> unit result \<times> string set \<times> world"
where
  "FetchHelper opt project fetched w =
     (let w1 = emit [Call_Sync_NetworkHalf (name project)] w in
      if \<not> Sync_NetworkHalf project
      then (let w2 = emit [Print_stderr (''error: Cannot fetch '' @ name project)] w1 in
            if force_broken opt
            then FetchHelper_add project fetched
                   (emit [Print_stderr ''warn: --force-broken, continuing to sync''] w2)
            else (SysExit 1, fetched, emit [Sem_release] w2))
      else FetchHelper_add project fetched w1)"

text \<open>The loop of lines 158 to 167, taken when \<^verbatim>\<open>self.jobs == 1\<close>.\<close>

fun fetch_sequential ::
  "options \<Rightarrow> project list \<Rightarrow> string set \<Rightarrow> world \<Rightarrow> string set result \<times> world"
where
  "fetch_sequential opt [] fetched w = (Return fetched, w)"
| "fetch_sequential opt (project # rest) fetched w =
     (let w1 = emit [Progress_update, Call_Sync_NetworkHalf (name project)] w in
      if Sync_NetworkHalf project
      then fetch_sequential opt rest (insert (gitdir project) fetched) w1
      else (let w2 = emit [Print_stderr (''error: Cannot fetch '' @ name project)] w1 in
            if force_broken opt
            then fetch_sequential opt rest fetched
                   (emit [Print_stderr ''warn: --force-broken, continuing to sync''] w2)
            else (SysExit 1, w2)))"

text \<open>
  The loop of lines 172 to 182. Each thread runs \<^verbatim>\<open>_FetchHelper\<close>; here a thread runs
  to its end when it is started, which is one of the schedules the semaphore admits
  when \<^verbatim>\<open>self.jobs\<close> is positive (the workers touch \<open>fetched\<close> only by adding to it
  under the lock, so the set at the end is the same in every schedule; the order of the
  trace is this schedule's). \<^verbatim>\<open>sys.exit\<close> raises \<^verbatim>\<open>SystemExit\<close>; raised in a thread
  that is not the main thread, it ends that thread and nothing else
  (\<^verbatim>\<open>threading.Thread\<close> discards it), so the main thread goes on with the next project.
\<close>

fun fetch_threads ::
  "options \<Rightarrow> project list \<Rightarrow> string set \<Rightarrow> world \<Rightarrow> string set \<times> world"
where
  "fetch_threads opt [] fetched w = (fetched, w)"
| "fetch_threads opt (project # rest) fetched w =
     (case FetchHelper opt project fetched (emit [Sem_acquire, Thread_start (name project)] w) of
        (thread_end, fetched', w') \<Rightarrow> fetch_threads opt rest fetched' w')"

text \<open>
  \<^verbatim>\<open>_Fetch\<close>, with \<^verbatim>\<open>self.jobs\<close> as its first argument. \<^verbatim>\<open>threading.Semaphore\<close>
  raises \<^verbatim>\<open>ValueError\<close> for a negative value; with the value 0 the first
  \<^verbatim>\<open>sem.acquire()\<close> never returns.
\<close>

definition Fetch ::
  "int \<Rightarrow> project list \<Rightarrow> options \<Rightarrow> world \<Rightarrow> string set result \<times> world"
where
  "Fetch self_jobs projs opt w =
     (if self_jobs = 1
      then (case fetch_sequential opt projs {} w of
              (Return fetched, w') \<Rightarrow> (Return fetched, emit [Progress_end] w')
            | (r, w') \<Rightarrow> (r, w'))
      else if self_jobs < 0 then (Raise ValueError, w)
      else if self_jobs = 0 \<and> projs \<noteq> [] then (Blocks, w)
      else (case fetch_threads opt projs {} w of
              (fetched, w') \<Rightarrow>
                (Return fetched, emit (map (\<lambda>p. Thread_join (name p)) projs @ [Progress_end]) w')))"


subsection \<open>The self-upgrade check (lines 374 to 437)\<close>

text \<open>
  Modelled from the spec: the constants \<^verbatim>\<open>R_HEADS\<close> (git_refs.py), \<^verbatim>\<open>GIT\<close>
  (git_command.py) and \<^verbatim>\<open>HEAD\<close> (project.py) are imported by \<^verbatim>\<open>sync.py\<close> and
  declared elsewhere: the branch namespace prefix, the name of the git program and the
  name of the current revision.
\<close>

definition R_HEADS :: string where
  "R_HEADS = ''refs/heads/''"

definition GIT :: string where
  "GIT = ''git''"

definition strip_R_HEADS :: "string \<Rightarrow> string" where
  "strip_R_HEADS r = (if startswith r R_HEADS then drop (length R_HEADS) r else r)"

text \<open>
  The regular expression of line 405, \<^verbatim>\<open>^.*-[0-9]{1,}-g[0-9a-f]{1,}$\<close>, as a list of
  items, and \<^verbatim>\<open>re.match\<close> on such a list: the dot matches every character but a newline,
  \<^verbatim>\<open>$\<close> matches at the end of the string and before a newline that ends it.
\<close>

datatype re_item =
    Dot_star
  | Chr char
  | Plus "char \<Rightarrow> bool"
  | Dollar

fun re_match :: "re_item list \<Rightarrow> string \<Rightarrow> bool" where
  "re_match [] s = True"
| "re_match (Dollar # r) s = ((s = [] \<or> s = [newline]) \<and> re_match r s)"
| "re_match (Chr c # r) [] = False"
| "re_match (Chr c # r) (x # xs) = (x = c \<and> re_match r xs)"
| "re_match (Dot_star # r) [] = re_match r []"
| "re_match (Dot_star # r) (x # xs) =
     (re_match r (x # xs) \<or> (x \<noteq> newline \<and> re_match (Dot_star # r) xs))"
| "re_match (Plus P # r) [] = False"
| "re_match (Plus P # r) (x # xs) = (P x \<and> (re_match r xs \<or> re_match (Plus P # r) xs))"

definition is_digit :: "char \<Rightarrow> bool" where
  "is_digit c = (CHR ''0'' \<le> c \<and> c \<le> CHR ''9'')"

definition is_hex_lower :: "char \<Rightarrow> bool" where
  "is_hex_lower c = (is_digit c \<or> (CHR ''a'' \<le> c \<and> c \<le> CHR ''f''))"

definition untagged_re :: "re_item list" where
  "untagged_re =
     [Dot_star, Chr CHR ''-'', Plus is_digit, Chr CHR ''-'', Chr CHR ''g'', Plus is_hex_lower, Dollar]"

definition squote :: char where
  "squote = CHR 0x27"

text \<open>
  \<^verbatim>\<open>_VerifyTag\<close>. Lines 399 to 402: \<^verbatim>\<open>GitError\<close> from the lookup gives \<^verbatim>\<open>cur = None\<close>,
  any other exception leaves the function. \<open>VerifyTag_not_signed\<close> is lines 406 to 414,
  taken when \<^verbatim>\<open>cur\<close> is \<^verbatim>\<open>None\<close>, empty or of the shape of the regular expression.
\<close>

definition VerifyTag_not_signed :: "project \<Rightarrow> world \<Rightarrow> bool result \<times> world" where
  "VerifyTag_not_signed project w =
     (let branch = strip_R_HEADS (revisionExpr project) in
      (Return False,
       emit [Print_stderr [],
             Print_stderr (''warning: project '' @ [squote] @ name project @ [squote]
                           @ '' branch '' @ [squote] @ branch @ [squote]
                           @ '' is not signed'')] w))"

definition VerifyTag :: "env \<Rightarrow> project \<Rightarrow> world \<Rightarrow> bool result \<times> world" where
  "VerifyTag e project w =
     (if \<not> gpg_dir_exists e
      then (Return True,
            emit [Print_stderr (''warning: GnuPG was not available during last '' @ [dquote]
                                @ ''repo init'' @ [dquote, newline]
                                @ ''warning: Cannot automatically authenticate repo.'')] w)
      else
       (case (case describe_revision project of
                Returns s \<Rightarrow> Returns (Some s)
              | Raises GitError \<Rightarrow> Returns None
              | Raises x \<Rightarrow> Raises x) of
          Raises x \<Rightarrow> (Raise x, w)
        | Returns None \<Rightarrow> VerifyTag_not_signed project w
        | Returns (Some cur) \<Rightarrow>
            (if cur = [] \<or> re_match untagged_re cur
             then VerifyTag_not_signed project w
             else (let w1 = emit [Run_subprocess [GIT, ''tag'', ''-v'', cur]] w in
                   if tag_verify_exit e \<noteq> 0
                   then (Return False,
                         emit [Print_stderr [], Print_stderr (tag_verify_out e),
                               Print_stderr (tag_verify_err e), Print_stderr []] w1)
                   else (Return True, w1)))))"

text \<open>
  \<^verbatim>\<open>_PostRepoFetch\<close>. \<open>PostRepoFetch_adopt\<close> is lines 379 to 384, the branch taken when
  verification is switched off or succeeds.
\<close>

definition PostRepoFetch_adopt :: "env \<Rightarrow> project \<Rightarrow> world \<Rightarrow> unit result \<times> world" where
  "PostRepoFetch_adopt e rp w =
     (let w1 = emit [New_SyncBuffer False, Call_Sync_LocalHalf (name rp), Call_Finish] w in
      if \<not> repo_Finish e then (SysExit 1, w1)
      else (Raise (RepoChangedException [''--repo-upgraded'']),
            emit [Print_stderr ''info: Restarting repo with latest version''] w1))"

definition PostRepoFetch :: "env \<Rightarrow> project \<Rightarrow> bool \<Rightarrow> bool \<Rightarrow> world \<Rightarrow> unit result \<times> world" where
  "PostRepoFetch e rp no_verify verbose w =
     (if HasChanges rp
      then (let w1 = emit [Print_stderr ''info: A new version of repo is available'',
                           Print_stderr []] w
            in if no_verify then PostRepoFetch_adopt e rp w1
               else (case VerifyTag e rp w1 of
                       (Return ok, w2) \<Rightarrow>
                         if ok then PostRepoFetch_adopt e rp w2
                         else (Return (),
                               emit [Print_stderr ''warning: Skipped upgrade to unverified version''] w2)
                     | (SysExit n, w2) \<Rightarrow> (SysExit n, w2)
                     | (Raise x, w2) \<Rightarrow> (Raise x, w2)
                     | (Blocks, w2) \<Rightarrow> (Blocks, w2)))
      else if verbose
      then (Return (), emit [Print_stderr (''repo version '' @ head_describe e @ '' is current'')] w)
      else (Return (), w))"


subsection \<open>Execute (lines 249 to 367)\<close>

text \<open>
  The statements of \<^verbatim>\<open>Execute\<close> in their order, each a step: after a step the run
  goes on with the next one (\<open>None\<close>) or \<^verbatim>\<open>Execute\<close> ends there (\<open>Some r\<close>).
\<close>

type_synonym step = "world \<Rightarrow> unit result option \<times> world"

fun run_steps :: "step list \<Rightarrow> world \<Rightarrow> unit result option \<times> world" where
  "run_steps [] w = (None, w)"
| "run_steps (s # ss) w =
     (case s w of
        (None, w') \<Rightarrow> run_steps ss w'
      | (Some r, w') \<Rightarrow> (Some r, w'))"

text \<open>Lines 250 and 251, with the class attribute \<^verbatim>\<open>jobs = 1\<close> of line 43.\<close>

definition self_jobs :: "options \<Rightarrow> int" where
  "self_jobs opt = (case jobs opt of None \<Rightarrow> 1 | Some j \<Rightarrow> if j = 0 then 1 else j)"

text \<open>Lines 252 to 257.\<close>

definition Execute_flags :: "options \<Rightarrow> step" where
  "Execute_flags opt w =
     (if network_only opt \<and> detach_head opt
      then (Some (SysExit 1), emit [Print_stderr ''error: cannot combine -n and -d''] w)
      else if network_only opt \<and> local_only opt
      then (Some (SysExit 1), emit [Print_stderr ''error: cannot combine -n and -l''] w)
      else (None, w))"

text \<open>
  Lines 259 to 302. \<^verbatim>\<open>sys.exit\<close> inside the \<^verbatim>\<open>try\<close> is not a \<^verbatim>\<open>socket.error\<close> and
  leaves it; an exception of the call that is not a \<^verbatim>\<open>socket.error\<close> leaves
  \<^verbatim>\<open>Execute\<close>.
\<close>

definition Execute_smart_sync :: "options \<Rightarrow> env \<Rightarrow> manifest \<Rightarrow> step" where
  "Execute_smart_sync opt e m w =
     (if \<not> smart_sync opt then (None, w)
      else if manifest_server m = []
      then (Some (SysExit 1),
            emit [Print_stderr ''error: cannot smart sync: no manifest server defined in manifest''] w)
      else
       (let branch = strip_R_HEADS (merge_branch (manifestProject m));
            target = (case (TARGET_PRODUCT e, TARGET_BUILD_VARIANT e) of
                        (Some product, Some variant) \<Rightarrow> Some (product @ ''-'' @ variant)
                      | _ \<Rightarrow> None);
            w1 = emit [Call_GetApprovedManifest branch target] w
        in case GetApprovedManifest e of
             Raises SocketError \<Rightarrow>
               (Some (SysExit 1),
                emit [Print_stderr (''error: cannot connect to manifest server '' @ manifest_server m)] w1)
           | Raises x \<Rightarrow> (Some (Raise x), w1)
           | Returns (success, manifest_str) \<Rightarrow>
               (if success
                then (let manifest_name = ''smart_sync_override.xml'';
                          manifest_path = os_path_join (worktree (manifestProject m)) manifest_name
                      in if manifest_write_ok e
                         then (None, emit [Write_manifest manifest_path manifest_str,
                                           Call_Override manifest_name] w1)
                         else (Some (SysExit 1),
                               emit [Print_stderr (''error: cannot write manifest to '' @ manifest_path)] w1))
                else (Some (SysExit 1), emit [Print_stderr (''error: '' @ manifest_str)] w1))))"

text \<open>Lines 304 to 311, with \<^verbatim>\<open>_PostRepoUpgrade\<close> (lines 369 to 372).\<close>

definition PostRepoUpgrade :: "manifest \<Rightarrow> world \<Rightarrow> world" where
  "PostRepoUpgrade m w =
     emit (map (\<lambda>p. Call_PostRepoUpgrade (name p)) (filter Exists (projects m))) w"

definition Execute_presync :: "options \<Rightarrow> manifest \<Rightarrow> step" where
  "Execute_presync opt m w =
     (let w1 = emit [Call_PreSync (name (repoProject m)), Call_PreSync (name (manifestProject m))] w in
      (None, if repo_upgraded opt then PostRepoUpgrade m w1 else w1))"

text \<open>
  Lines 313 to 321. The test of \<^verbatim>\<open>mp.HasChanges\<close> (line 316) stands after the
  \<^verbatim>\<open>if not opt.local_only\<close> of line 313, not inside it.
\<close>

definition Execute_manifest :: "options \<Rightarrow> env \<Rightarrow> manifest \<Rightarrow> step" where
  "Execute_manifest opt e m w =
     (let mp = manifestProject m;
          w1 = (if \<not> local_only opt then emit [Call_Sync_NetworkHalf (name mp)] w else w)
      in if HasChanges mp
         then (let w2 = emit [New_SyncBuffer False, Call_Sync_LocalHalf (name mp), Call_Finish] w1 in
               if \<not> manifest_Finish e then (Some (SysExit 1), w2)
               else (None, emit [Call_Unload] w2))
         else (None, w1))"

text \<open>
  Lines 322 to 335, \<^verbatim>\<open>all\<close> being \<open>GetProjects e\<close> and \<open>to_fetch\<close> the list of
  lines 325 to 329. The statements of lines 337 to 343
  stand after the \<^verbatim>\<open>return\<close> of line 335 in its block: they are never run and have no
  part here.
\<close>

definition to_fetch :: "env \<Rightarrow> manifest \<Rightarrow> project list" where
  "to_fetch e m =
     (if 24 * 60 * 60 \<le> now e - LastFetch (repoProject m) then [repoProject m] else [])
     @ GetProjects e"

definition Execute_fetch :: "options \<Rightarrow> env \<Rightarrow> manifest \<Rightarrow> step" where
  "Execute_fetch opt e m w =
     (if local_only opt then (None, w)
      else
       (case Fetch (self_jobs opt) (to_fetch e m) opt w of
          (Return fetched, w1) \<Rightarrow>
            (case PostRepoFetch e (repoProject m) (no_repo_verify opt) False w1 of
               (Return u, w2) \<Rightarrow> if network_only opt then (Some (Return ()), w2) else (None, w2)
             | (r, w2) \<Rightarrow> (Some r, w2))
        | (SysExit n, w1) \<Rightarrow> (Some (SysExit n), w1)
        | (Raise x, w1) \<Rightarrow> (Some (Raise x), w1)
        | (Blocks, w1) \<Rightarrow> (Some Blocks, w1)))"

text \<open>Lines 345 to 347.\<close>

definition Execute_mirror :: "manifest \<Rightarrow> step" where
  "Execute_mirror m w = (if IsMirror m then (Some (Return ()), w) else (None, w))"

text \<open>Lines 349 and 350.\<close>

definition Execute_reconcile :: "env \<Rightarrow> manifest \<Rightarrow> step" where
  "Execute_reconcile e m w =
     (case UpdateProjectList m e w of
        (Return r, w') \<Rightarrow> if r \<noteq> 0 then (Some (SysExit 1), w') else (None, w')
      | (SysExit n, w') \<Rightarrow> (Some (SysExit n), w')
      | (Raise x, w') \<Rightarrow> (Some (Raise x), w')
      | (Blocks, w') \<Rightarrow> (Some Blocks, w'))"

text \<open>Lines 352 to 362.\<close>

definition Execute_local :: "options \<Rightarrow> env \<Rightarrow> step" where
  "Execute_local opt e w =
     (let w1 = emit (New_SyncBuffer (detach_head opt)
                     # concat (map (\<lambda>p. if worktree p \<noteq> []
                                          then [Progress_update, Call_Sync_LocalHalf (name p)]
                                          else [Progress_update]) (GetProjects e))
                     @ [Progress_end, Print_stderr [], Call_Finish]) w
      in if \<not> projects_Finish e then (Some (SysExit 1), w1) else (None, w1))"

text \<open>Lines 364 to 367.\<close>

definition Execute_notice :: "manifest \<Rightarrow> step" where
  "Execute_notice m w = (None, if notice m \<noteq> [] then emit [Print_stdout (notice m)] w else w)"

definition Execute :: "options \<Rightarrow> env \<Rightarrow> manifest \<Rightarrow> world \<Rightarrow> unit result \<times> world" where
  "Execute opt e m w =
     (case run_steps
             [Execute_flags opt,
              Execute_smart_sync opt e m,
              Execute_presync opt m,
              Execute_manifest opt e m,
              Execute_fetch opt e m,
              Execute_mirror m,
              Execute_reconcile e m,
              Execute_local opt e,
              Execute_notice m] w of
        (None, w') \<Rightarrow> (Return (), w')
      | (Some r, w') \<Rightarrow> (r, w'))"


subsection \<open>What a run did, and concrete inputs\<close>

text \<open>The events a run from \<open>w\<close> to \<open>w'\<close> added to the trace, and what to read off them.\<close>

definition events_of :: "world \<Rightarrow> world \<Rightarrow> event list" where
  "events_of w w' = drop (length (trace w)) (trace w')"

fun local_updates :: "event list \<Rightarrow> string list" where
  "local_updates [] = []"
| "local_updates (Call_Sync_LocalHalf n # es) = n # local_updates es"
| "local_updates (ev # es) = local_updates es"

fun network_fetches :: "event list \<Rightarrow> string list" where
  "network_fetches [] = []"
| "network_fetches (Call_Sync_NetworkHalf n # es) = n # network_fetches es"
| "network_fetches (ev # es) = network_fetches es"

fun subprocess_runs :: "event list \<Rightarrow> string list list" where
  "subprocess_runs [] = []"
| "subprocess_runs (Run_subprocess cmd # es) = cmd # subprocess_runs es"
| "subprocess_runs (ev # es) = subprocess_runs es"

fun printed_stderr :: "event list \<Rightarrow> string list" where
  "printed_stderr [] = []"
| "printed_stderr (Print_stderr s # es) = s # printed_stderr es"
| "printed_stderr (ev # es) = printed_stderr es"

text \<open>
  The events of a run that leaves the working trees of the projects alone: no deletion,
  no write of project.list, and \<^verbatim>\<open>Sync_LocalHalf\<close> of no project but the manifest
  project \<open>mp\<close> and the project \<open>rp\<close> of repo itself.
\<close>

fun network_only_event :: "string \<Rightarrow> string \<Rightarrow> event \<Rightarrow> bool" where
  "network_only_event mp rp (Call_rmtree p) = False"
| "network_only_event mp rp (Call_rmdir p) = False"
| "network_only_event mp rp (Write_project_list c) = False"
| "network_only_event mp rp (Call_Sync_LocalHalf n) = (n = mp \<or> n = rp)"
| "network_only_event mp rp ev = True"

text \<open>
  A run from \<open>w\<close> to \<open>w'\<close> did nothing but add events to the trace: all of them
  satisfy \<open>P\<close>, and the network fetches among them are \<open>ns\<close>.
\<close>

definition emits :: "(event \<Rightarrow> bool) \<Rightarrow> string list \<Rightarrow> world \<Rightarrow> world \<Rightarrow> bool" where
  "emits P ns w w' = (\<exists>es. w' = emit es w \<and> list_all P es \<and> network_fetches es = ns)"

text \<open>
  A run from \<open>w\<close> to \<open>w'\<close> added events to the trace, all of them satisfying \<open>P\<close>
  (the directory entries and project.list may differ); \<open>no_fetch\<close>: the event is not a
  network fetch.
\<close>

definition adds :: "(event \<Rightarrow> bool) \<Rightarrow> world \<Rightarrow> world \<Rightarrow> bool" where
  "adds P w w' = (\<exists>es. trace w' = trace w @ es \<and> list_all P es)"

definition no_fetch :: "event \<Rightarrow> bool" where
  "no_fetch ev = (network_fetches [ev] = [])"

text \<open>One path per line, each line ended by a newline.\<close>

definition one_per_line :: "string list \<Rightarrow> string" where
  "one_per_line xs = concat (map (\<lambda>x. x @ [newline]) xs)"

text \<open>
  A project at the path \<open>p\<close> whose fetch answers \<open>ok\<close>, a manifest of such projects
  with the top directory \<open>/w\<close>, a world where \<open>/w\<close> holds the given entries (names
  relative to \<open>/w\<close>) and project.list the given old paths, and the answers of a quiet
  environment: nothing is dirty and no deletion fails.
\<close>

definition ex_project :: "string \<Rightarrow> bool \<Rightarrow> project" where
  "ex_project p ok =
     \<lparr>name = p, gitdir = p @ ''/.git'', worktree = p, relpath = p,
      revisionExpr = ''refs/heads/master'', Sync_NetworkHalf = ok, HasChanges = False,
      LastFetch = 0, Exists = True, describe_revision = Returns ''v1.0'',
      merge_branch = ''refs/heads/master''\<rparr>"

definition ex_manifest :: "string list \<Rightarrow> manifest" where
  "ex_manifest ps =
     \<lparr>projects = map (\<lambda>p. ex_project p True) ps, manifest_server = [],
      manifestProject = ex_project ''.repo/manifests'' True,
      repoProject = ex_project ''.repo/repo'' True,
      IsMirror = False, notice = [], topdir = ''/w''\<rparr>"

definition ex_world :: "string set \<Rightarrow> string list \<Rightarrow> world" where
  "ex_world ds old =
     \<lparr>on_disk = insert [''w''] ((\<lambda>p. ''w'' # split_char slash p) ` ds),
      project_list = Some (one_per_line old), trace = []\<rparr>"

definition ex_options :: options where
  "ex_options =
     \<lparr>force_broken = False, local_only = False, network_only = False, detach_head = False,
      quiet = False, jobs = None, smart_sync = False, no_repo_verify = False,
      repo_upgraded = False\<rparr>"

definition dirty_only :: "string \<Rightarrow> string \<Rightarrow> bool" where
  "dirty_only d p = (p = d)"

definition ex_env :: "project list \<Rightarrow> env" where
  "ex_env ps =
     \<lparr>IsDirty = dirty_only [], rmtree_error = (\<lambda>s. None), rmdir_error = (\<lambda>s. False),
      TARGET_PRODUCT = None, TARGET_BUILD_VARIANT = None,
      GetApprovedManifest = Returns (True, ''<manifest/>''), manifest_write_ok = True,
      manifest_Finish = True, repo_Finish = True, projects_Finish = True,
      GetProjects = ps, now = 0, gpg_dir_exists = True, tag_verify_exit = 0,
      tag_verify_out = [], tag_verify_err = [], head_describe = ''v1.0''\<rparr>"

text \<open>
  The project of repo itself with a new version fetched, and a manifest whose manifest
  project has changes to apply.
\<close>

definition ex_repo :: project where
  "ex_repo = (ex_project ''.repo/repo'' True)\<lparr>HasChanges := True\<rparr>"

definition ex_manifest_changed :: manifest where
  "ex_manifest_changed =
     (ex_manifest [''a''])\<lparr>manifestProject :=
        (ex_project ''.repo/manifests'' True)\<lparr>HasChanges := True\<rparr>\<rparr>"

section \<open>Properties\<close>

subsection \<open>Reconciliation\<close>

lemma emit_simps [simp]:
  "on_disk (emit es w) = on_disk w"
  "project_list (emit es w) = project_list w"
  "trace (emit es w) = trace w @ es"
  by (simp_all add: emit_def)

text \<open>Deleting entries never makes a name readable.\<close>

lemma walk_mono:
  "D' \<subseteq> D \<Longrightarrow> walk D' cur cs = Some p \<Longrightarrow> walk D cur cs = Some p"
  by (induction cs arbitrary: cur) (auto split: if_splits)

lemma walk_result:
  "walk D cur cs = Some p \<Longrightarrow> p \<in> D \<or> prefix p cur"
proof (induction cs arbitrary: cur)
  case Nil
  then show ?case by simp
next
  case (Cons c cs)
  consider (stay) "c = [] \<or> c = ''.''" | (up) "c = ''..''"
    | (down) "c \<noteq> []" "c \<noteq> ''.''" "c \<noteq> ''..''" by blast
  then show ?case
  proof cases
    case stay
    with Cons show ?thesis by auto
  next
    case up
    with Cons.prems have "walk D (butlast cur) cs = Some p" by simp
    from Cons.IH [OF this] show ?thesis
      using prefixeq_butlast [of cur] by (auto intro: prefix_order.trans)
  next
    case down
    with Cons.prems have in_D: "cur @ [c] \<in> D" and "walk D (cur @ [c]) cs = Some p"
      by (auto split: if_splits)
    from Cons.IH [OF this(2)] in_D show ?thesis by (auto simp: prefix_snoc)
  qed
qed

lemma lookup_mono: "D' \<subseteq> D \<Longrightarrow> lookup D' s = Some p \<Longrightarrow> lookup D s = Some p"
  unfolding lookup_def by (rule walk_mono)

lemma lookup_result: "lookup D s = Some p \<Longrightarrow> p \<in> D \<or> p = []"
  unfolding lookup_def using walk_result [of D "[]" _ p] by auto

lemma os_path_exists_mono:
  "on_disk w' \<subseteq> on_disk w \<Longrightarrow> os_path_exists w' s \<Longrightarrow> os_path_exists w s"
  unfolding os_path_exists_def using lookup_mono by fastforce

lemma without_tree_iff [simp]: "q \<in> without_tree p D \<longleftrightarrow> q \<in> D \<and> \<not> prefix p q"
  by (simp add: without_tree_def)

lemma without_content_iff [simp]:
  "q \<in> without_content p D \<longleftrightarrow> q \<in> D \<and> \<not> strict_prefix p q"
  by (simp add: without_content_def)

lemma rmtree_frame [simp]:
  "project_list (snd (rmtree e s w)) = project_list w"
  "trace (snd (rmtree e s w)) = trace w @ [Call_rmtree s]"
  by (simp_all add: rmtree_def Let_def split: option.splits)

lemma rmtree_subset: "on_disk (snd (rmtree e s w)) \<subseteq> on_disk w"
  by (auto simp: rmtree_def Let_def split: option.splits)

text \<open>When \<^verbatim>\<open>rmtree\<close> returns, the name it was given is no longer on disk.\<close>

lemma rmtree_deleted:
  assumes "fst (rmtree e s w) = Return u"
  shows "\<not> os_path_exists (snd (rmtree e s w)) s"
proof
  assume ex: "os_path_exists (snd (rmtree e s w)) s"
  from assms obtain p where p: "lookup (on_disk w) s = Some p" "p \<noteq> []"
    and d: "on_disk (snd (rmtree e s w)) = without_tree p (on_disk w)"
    by (auto simp: rmtree_def Let_def split: option.splits if_splits)
  from ex obtain p' where p': "lookup (on_disk (snd (rmtree e s w))) s = Some p'"
    by (auto simp: os_path_exists_def)
  with lookup_mono [OF rmtree_subset p'] p have "p' = p" by simp
  with lookup_result [OF p'] p(2) d show False by auto
qed

lemma rmdir_frame [simp]:
  "project_list (rmdir s w) = project_list w"
  "trace (rmdir s w) = trace w @ [Call_rmdir s]"
  by (simp_all add: rmdir_def)

lemma rmdir_subset: "on_disk (rmdir s w) \<subseteq> on_disk w"
  by (auto simp: rmdir_def split: option.splits)

lemma prune_parents_project_list [simp]:
  "project_list (prune_parents e t d w) = project_list w"
  by (induction e t d w rule: prune_parents.induct) (subst prune_parents.simps, simp)

lemma prune_parents_subset: "on_disk (prune_parents e t d w) \<subseteq> on_disk w"
proof (induction e t d w rule: prune_parents.induct)
  case (1 e t d w)
  show ?case
  proof (cases "d \<noteq> t \<and> rmdir_succeeds e d w")
    case True
    with 1 have "on_disk (prune_parents e t (os_path_dirname d) (rmdir d w)) \<subseteq> on_disk (rmdir d w)"
      by simp
    with True rmdir_subset [of d w] show ?thesis by (subst prune_parents.simps) auto
  next
    case False
    then show ?thesis by (subst prune_parents.simps) auto
  qed
qed

lemma remove_obsolete_project_list [simp]:
  "project_list (snd (remove_obsolete e t new old w)) = project_list w"
proof (induction old arbitrary: w)
  case Nil
  then show ?case by simp
next
  case (Cons p old)
  let ?w0 = "emit [Print_stderr (''Deleting obsolete path '' @ os_path_join t p)] w"
  obtain r w1 where r: "rmtree e (os_path_join t p) ?w0 = (r, w1)"
    by (cases "rmtree e (os_path_join t p) ?w0") auto
  then have "project_list w1 = project_list w"
    using rmtree_frame(1) [of e "os_path_join t p" ?w0] by simp
  with r Cons show ?case by (cases r) (auto simp: Let_def)
qed


text \<open>One turn of the loop: the path is passed over, the loop ends, or the tree is deleted.\<close>

lemma remove_obsolete_Cons_cases:
  obtains (skip) "p = [] \<or> p \<in> set new \<or> \<not> os_path_exists w (t @ [slash] @ p)"
      "\<And>xs. remove_obsolete e t new (p # xs) w = remove_obsolete e t new xs w"
  | (dirty) "p \<noteq> []" "p \<notin> set new" "os_path_exists w (t @ [slash] @ p)" "IsDirty e p"
      "\<And>xs. fst (remove_obsolete e t new (p # xs) w) = Some (Return (- 1))"
      "\<And>xs. on_disk (snd (remove_obsolete e t new (p # xs) w)) = on_disk w"
  | (raise) r where "p \<noteq> []" "p \<notin> set new" "\<not> IsDirty e p"
      "\<And>u. r \<noteq> Return u"
      "\<And>xs. fst (remove_obsolete e t new (p # xs) w) = Some r"
  | (delete) w1 where "p \<noteq> []" "p \<notin> set new" "\<not> IsDirty e p"
      "\<not> os_path_exists w1 (os_path_join t p)" "on_disk w1 \<subseteq> on_disk w"
      "\<And>xs. remove_obsolete e t new (p # xs) w = remove_obsolete e t new xs w1"
proof -
  let ?w0 = "emit [Print_stderr (''Deleting obsolete path '' @ os_path_join t p)] w"
  let ?tree = "os_path_join t p"
  consider (a) "p = [] \<or> p \<in> set new \<or> \<not> os_path_exists w (t @ [slash] @ p)"
    | (b) "p \<noteq> []" "p \<notin> set new" "os_path_exists w (t @ [slash] @ p)" "IsDirty e p"
    | (c) "p \<noteq> []" "p \<notin> set new" "os_path_exists w (t @ [slash] @ p)" "\<not> IsDirty e p"
    by blast
  then show ?thesis
  proof cases
    case a
    then show ?thesis by (intro skip) auto
  next
    case b
    then show ?thesis by (intro dirty) auto
  next
    case c
    obtain r w1 where r: "rmtree e ?tree ?w0 = (r, w1)" by (cases "rmtree e ?tree ?w0") auto
    show ?thesis
    proof (cases r)
      case (Return u)
      have gone: "\<not> os_path_exists w1 ?tree"
        using rmtree_deleted [of e ?tree ?w0 u] r Return by simp
      have sub: "on_disk w1 \<subseteq> on_disk w" using rmtree_subset [of e ?tree ?w0] r by simp
      let ?w2 = "prune_parents e t (os_path_dirname ?tree) w1"
      have s2: "on_disk ?w2 \<subseteq> on_disk w1" by (rule prune_parents_subset)
      have "\<not> os_path_exists ?w2 ?tree" using gone os_path_exists_mono [OF s2] by blast
      moreover have "on_disk ?w2 \<subseteq> on_disk w" using s2 sub by blast
      moreover have "\<And>xs. remove_obsolete e t new (p # xs) w = remove_obsolete e t new xs ?w2"
        using c r Return by (simp add: Let_def)
      ultimately show ?thesis using c by (intro delete [of ?w2]) auto
    next
      case (SysExit n)
      with c r show ?thesis by (intro raise [of "SysExit n"]) (auto simp: Let_def)
    next
      case (Raise x)
      with c r show ?thesis by (intro raise [of "Raise x"]) (auto simp: Let_def)
    next
      case Blocks
      with c r show ?thesis by (intro raise [of Blocks]) (auto simp: Let_def)
    qed
  qed
qed

lemma remove_obsolete_abort:
  assumes "fst (remove_obsolete e t new old w) = Some (Return r)"
  shows "\<exists>pre d post. old = pre @ d # post \<and> d \<noteq> [] \<and> d \<notin> set new \<and> IsDirty e d \<and> r = - 1
           \<and> fst (remove_obsolete e t new pre w) = None
           \<and> os_path_exists (snd (remove_obsolete e t new pre w)) (t @ [slash] @ d)
           \<and> on_disk (snd (remove_obsolete e t new old w))
               = on_disk (snd (remove_obsolete e t new pre w))"
  using assms
proof (induction old arbitrary: w)
  case Nil
  then show ?case by simp
next
  case (Cons p old)
  show ?case
  proof (cases rule: remove_obsolete_Cons_cases [of p new w t e])
    case skip
    with Cons.prems have "fst (remove_obsolete e t new old w) = Some (Return r)" by simp
    from Cons.IH [OF this] obtain pre d post where f:
      "old = pre @ d # post" "d \<noteq> []" "d \<notin> set new" "IsDirty e d" "r = - 1"
      "fst (remove_obsolete e t new pre w) = None"
      "os_path_exists (snd (remove_obsolete e t new pre w)) (t @ [slash] @ d)"
      "on_disk (snd (remove_obsolete e t new old w))
               = on_disk (snd (remove_obsolete e t new pre w))" by blast
    have "p # old = (p # pre) @ d # post" using f(1) by simp
    moreover have "fst (remove_obsolete e t new (p # pre) w) = None"
      using f(6) by (simp only: skip(2))
    moreover have "os_path_exists (snd (remove_obsolete e t new (p # pre) w)) (t @ [slash] @ d)"
      using f(7) by (simp only: skip(2))
    moreover have "on_disk (snd (remove_obsolete e t new (p # old) w))
               = on_disk (snd (remove_obsolete e t new (p # pre) w))"
      using f(8) by (simp only: skip(2))
    ultimately show ?thesis using f(2-5) by blast
  next
    case dirty
    with Cons.prems have "r = - 1" by simp
    with dirty have "p # old = [] @ p # old \<and> p \<noteq> [] \<and> p \<notin> set new \<and> IsDirty e p \<and> r = - 1
           \<and> fst (remove_obsolete e t new [] w) = None
           \<and> os_path_exists (snd (remove_obsolete e t new [] w)) (t @ [slash] @ p)
           \<and> on_disk (snd (remove_obsolete e t new (p # old) w))
               = on_disk (snd (remove_obsolete e t new [] w))"
      by simp
    then show ?thesis by blast
  next
    case (raise r')
    with Cons.prems show ?thesis by auto
  next
    case (delete w1)
    with Cons.prems have "fst (remove_obsolete e t new old w1) = Some (Return r)" by simp
    from Cons.IH [OF this] obtain pre d post where f:
      "old = pre @ d # post" "d \<noteq> []" "d \<notin> set new" "IsDirty e d" "r = - 1"
      "fst (remove_obsolete e t new pre w1) = None"
      "os_path_exists (snd (remove_obsolete e t new pre w1)) (t @ [slash] @ d)"
      "on_disk (snd (remove_obsolete e t new old w1))
               = on_disk (snd (remove_obsolete e t new pre w1))" by blast
    have "p # old = (p # pre) @ d # post" using f(1) by simp
    moreover have "fst (remove_obsolete e t new (p # pre) w) = None"
      using f(6) by (simp only: delete(6))
    moreover have "os_path_exists (snd (remove_obsolete e t new (p # pre) w)) (t @ [slash] @ d)"
      using f(7) by (simp only: delete(6))
    moreover have "on_disk (snd (remove_obsolete e t new (p # old) w))
               = on_disk (snd (remove_obsolete e t new (p # pre) w))"
      using f(8) by (simp only: delete(6))
    ultimately show ?thesis using f(2-5) by blast
  qed
qed



lemma split_char_not_Nil [simp]: "split_char c s \<noteq> []"
  by (induction s) (auto split: list.splits)






lemma remove_obsolete_Return:
  "fst (remove_obsolete e t new old w) = Some (Return r) \<Longrightarrow> r = - 1"
  using remove_obsolete_abort by blast

lemma UpdateProjectList_project_list:
  "project_list (snd (UpdateProjectList m e w)) =
     (if fst (UpdateProjectList m e w) = Return 0
      then Some (project_list_content (new_project_paths m)) else project_list w)"
proof (cases "project_list w")
  case None
  then show ?thesis by (simp add: UpdateProjectList_def Let_def write_project_list_def)
next
  case (Some content)
  let ?r = "remove_obsolete e (topdir m) (new_project_paths m) (split_char newline content) w"
  have pl: "project_list (snd ?r) = project_list w" by simp
  show ?thesis
  proof (cases "fst ?r")
    case None
    then obtain w' where "?r = (None, w')" by (cases ?r) auto
    with Some show ?thesis by (simp add: UpdateProjectList_def Let_def write_project_list_def)
  next
    case s: (Some r)
    then obtain w' where w': "?r = (Some r, w')" by (cases ?r) auto
    have "r \<noteq> Return 0" using remove_obsolete_Return [of e "topdir m" "new_project_paths m" _ w] s
      by fastforce
    with w' pl Some show ?thesis by (simp add: UpdateProjectList_def Let_def)
  qed
qed

lemma join_str_lines:
  "xs \<noteq> [] \<Longrightarrow> join_str [c] xs @ [c] = concat (map (\<lambda>x. x @ [c]) xs)"
  by (induction "[c]" xs rule: join_str.induct) auto

text \<open>
  C5 (as amended). After every successful reconciliation run project.list holds the
  non-empty relative paths of the manifest's projects, sorted, joined by newlines and
  followed by one newline: one path per line when there is a path at all, with a path
  that several projects declare listed once for each of them. A second run with the same
  manifest leaves the content of the file as it is.
\<close>

theorem UpdateProjectList_success_content:
  assumes "fst (UpdateProjectList m e w) = Return 0"
  shows "project_list (snd (UpdateProjectList m e w))
           = Some (join_str [newline] (sort (filter (\<lambda>p. p \<noteq> []) (map relpath (projects m)))) @ [newline])
       \<and> (if filter (\<lambda>p. p \<noteq> []) (map relpath (projects m)) = [] then True
          else project_list (snd (UpdateProjectList m e w))
           = Some (one_per_line (sort (filter (\<lambda>p. p \<noteq> []) (map relpath (projects m))))))
       \<and> project_list (snd (UpdateProjectList m e2 (snd (UpdateProjectList m e w))))
           = project_list (snd (UpdateProjectList m e w))"
proof -
  have n: "new_project_paths m = filter (\<lambda>p. p \<noteq> []) (map relpath (projects m))"
    by (simp add: new_project_paths_def filter_map comp_def)
  have a: "project_list (snd (UpdateProjectList m e w))
            = Some (project_list_content (new_project_paths m))"
    using assms by (simp add: UpdateProjectList_project_list)
  have b: "project_list (snd (UpdateProjectList m e2 (snd (UpdateProjectList m e w))))
           = project_list (snd (UpdateProjectList m e w))"
    by (subst UpdateProjectList_project_list) (simp add: a)
  have c: "new_project_paths m \<noteq> [] \<Longrightarrow>
    project_list_content (new_project_paths m) = concat (map (\<lambda>p. p @ [newline]) (sort (new_project_paths m)))"
    unfolding project_list_content_def by (rule join_str_lines) (metis set_sort set_empty)
  show ?thesis using a b c by (auto simp: n [symmetric] project_list_content_def one_per_line_def)
qed

subsection \<open>Reconciliation: concrete runs\<close>

text \<open>The loop of \<open>prune_parents\<close>, one turn at a time.\<close>

lemma prune_parents_stop: "prune_parents e t t w = w"
  by (subst prune_parents.simps) simp

lemma prune_parents_fail:
  "d \<noteq> t \<Longrightarrow> \<not> rmdir_succeeds e d w \<Longrightarrow> prune_parents e t d w = w"
  by (subst prune_parents.simps) simp

lemma prune_parents_step:
  "d \<noteq> t \<Longrightarrow> rmdir_succeeds e d w \<Longrightarrow>
     prune_parents e t d w = prune_parents e t (os_path_dirname d) (rmdir d w)"
  by (subst prune_parents.simps) simp

lemma without_tree_insert:
  "without_tree p (insert a A)
     = (if prefix p a then without_tree p A else insert a (without_tree p A))"
  by (auto simp: without_tree_def)

lemma without_tree_empty: "without_tree p {} = {}"
  by (auto simp: without_tree_def)

lemma without_content_insert:
  "without_content p (insert a A)
     = (if strict_prefix p a then without_content p A else insert a (without_content p A))"
  by (auto simp: without_content_def)

lemma without_content_empty: "without_content p {} = {}"
  by (auto simp: without_content_def)

lemmas reconcile_eval =
  ex_project_def ex_manifest_def one_per_line_def ex_world_def ex_env_def dirty_only_def
  UpdateProjectList_def new_project_paths_def newline_def slash_def dquote_def
  write_project_list_def project_list_content_def os_path_join_def os_path_dirname_def
  os_path_exists_def lookup_def startswith_def rmtree_def rmdir_def emit_def
  rmdir_succeeds_def last_component_def prune_parents_stop prune_parents_fail
  prune_parents_step without_tree_insert without_tree_empty without_content_insert
  without_content_empty insert_Diff_if Let_def

text \<open>
  A clean obsolete tree below two directories that hold nothing else: the tree is
  deleted and the loop of lines 232 to 238 removes the two directories, up to the top
  directory.
\<close>

lemma UpdateProjectList_prunes_parents:
  "UpdateProjectList (ex_manifest []) (ex_env [])
     (ex_world {''x'', ''x/y'', ''x/y/p'', ''x/y/p/f''} [''x/y/p''])
   = (Return 0,
      \<lparr>on_disk = {[''w'']}, project_list = Some [newline],
       trace = [Print_stderr ''Deleting obsolete path /w/x/y/p'', Call_rmtree ''/w/x/y/p'',
                Call_rmdir ''/w/x/y'', Call_rmdir ''/w/x'', Write_project_list [newline]]\<rparr>)"
  by (simp add: reconcile_eval)

text \<open>
  \<^verbatim>\<open>rmtree\<close> fails on the clean obsolete tree \<open>b\<close> (say \<open>b\<close> is a regular file and
  nothing is deleted): the \<^verbatim>\<open>OSError\<close> leaves \<^verbatim>\<open>UpdateProjectList\<close>, and project.list is
  as before.
\<close>

lemma UpdateProjectList_rmtree_raises:
  "fst (UpdateProjectList (ex_manifest [''a''])
          ((ex_env [])\<lparr>rmtree_error := (\<lambda>s. Some {[''w'', ''b'']})\<rparr>)
          (ex_world {''a'', ''b''} [''a'', ''b''])) = Raise OSError
   \<and> on_disk (snd (UpdateProjectList (ex_manifest [''a''])
          ((ex_env [])\<lparr>rmtree_error := (\<lambda>s. Some {[''w'', ''b'']})\<rparr>)
          (ex_world {''a'', ''b''} [''a'', ''b''])))
       = on_disk (ex_world {''a'', ''b''} [''a'', ''b''])
   \<and> project_list (snd (UpdateProjectList (ex_manifest [''a''])
          ((ex_env [])\<lparr>rmtree_error := (\<lambda>s. Some {[''w'', ''b'']})\<rparr>)
          (ex_world {''a'', ''b''} [''a'', ''b''])))
       = Some (one_per_line [''a'', ''b''])"
  by (auto simp add: reconcile_eval)

text \<open>
  The record holds the entry \<open>.\<close>: \<^verbatim>\<open>rmtree\<close> of \<open>/w/.\<close> deletes what the top directory
  holds and fails on the directory itself; the \<^verbatim>\<open>OSError\<close> leaves \<^verbatim>\<open>UpdateProjectList\<close>.
\<close>

lemma UpdateProjectList_dot_entry:
  "UpdateProjectList (ex_manifest [''a'']) (ex_env []) (ex_world {''a'', ''a/f''} [''a'', ''.''])
   = (Raise OSError,
      \<lparr>on_disk = {[''w'']}, project_list = Some ''a\<newline>.\<newline>'',
       trace = [Print_stderr ''Deleting obsolete path /w/.'', Call_rmtree ''/w/.'']\<rparr>)"
  by (simp add: reconcile_eval)

text \<open>
  C2 (a defect of the code). The old record lists \<open>a\<close> and then \<open>a/b\<close>, the manifest
  declares neither, both trees are on disk, and \<^verbatim>\<open>IsDirty\<close> answers yes for \<open>a/b\<close> and no for
  \<open>a\<close> (the git of \<open>a\<close> ignores \<open>b\<close>). The loop deletes \<open>a\<close> with \<^verbatim>\<open>rmtree\<close>, and with it
  the dirty tree \<open>a/b\<close>, before it comes to \<open>a/b\<close>, whose existence test then fails:
  \<^verbatim>\<open>IsDirty\<close> is never asked about \<open>a/b\<close>, the run returns 0 and rewrites project.list.
  With the same trees and the record in the other order, \<open>a/b\<close> and then \<open>a\<close>, the test of
  lines 223 to 227 stops the run with -1 and \<open>a/b\<close> stays on disk.
\<close>

theorem UpdateProjectList_dirty_nested_deleted:
  "project_list (ex_world {''a'', ''a/.git'', ''a/.gitignore'', ''a/b'', ''a/b/.git''} [''a'', ''a/b''])
       = Some ''a\<newline>a/b\<newline>''
   \<and> ''a/b'' \<notin> set (new_project_paths (ex_manifest []))
   \<and> os_path_exists (ex_world {''a'', ''a/.git'', ''a/.gitignore'', ''a/b'', ''a/b/.git''} [''a'', ''a/b''])
        (os_path_join (topdir (ex_manifest [])) ''a/b'')
   \<and> IsDirty ((ex_env [])\<lparr>IsDirty := dirty_only ''a/b''\<rparr>) ''a/b''
   \<and> fst (UpdateProjectList (ex_manifest []) ((ex_env [])\<lparr>IsDirty := dirty_only ''a/b''\<rparr>)
            (ex_world {''a'', ''a/.git'', ''a/.gitignore'', ''a/b'', ''a/b/.git''} [''a'', ''a/b'']))
       = Return 0
   \<and> on_disk (snd (UpdateProjectList (ex_manifest []) ((ex_env [])\<lparr>IsDirty := dirty_only ''a/b''\<rparr>)
            (ex_world {''a'', ''a/.git'', ''a/.gitignore'', ''a/b'', ''a/b/.git''} [''a'', ''a/b''])))
       = {[''w'']}
   \<and> \<not> os_path_exists
          (snd (UpdateProjectList (ex_manifest []) ((ex_env [])\<lparr>IsDirty := dirty_only ''a/b''\<rparr>)
            (ex_world {''a'', ''a/.git'', ''a/.gitignore'', ''a/b'', ''a/b/.git''} [''a'', ''a/b''])))
          (os_path_join (topdir (ex_manifest [])) ''a/b'')
   \<and> project_list (snd (UpdateProjectList (ex_manifest []) ((ex_env [])\<lparr>IsDirty := dirty_only ''a/b''\<rparr>)
            (ex_world {''a'', ''a/.git'', ''a/.gitignore'', ''a/b'', ''a/b/.git''} [''a'', ''a/b''])))
       = Some ''\<newline>''
   \<and> trace (snd (UpdateProjectList (ex_manifest []) ((ex_env [])\<lparr>IsDirty := dirty_only ''a/b''\<rparr>)
            (ex_world {''a'', ''a/.git'', ''a/.gitignore'', ''a/b'', ''a/b/.git''} [''a'', ''a/b''])))
       = [Print_stderr ''Deleting obsolete path /w/a'', Call_rmtree ''/w/a'',
          Write_project_list ''\<newline>'']
   \<and> fst (UpdateProjectList (ex_manifest []) ((ex_env [])\<lparr>IsDirty := dirty_only ''a/b''\<rparr>)
            (ex_world {''a'', ''a/.git'', ''a/.gitignore'', ''a/b'', ''a/b/.git''} [''a/b'', ''a'']))
       = Return (- 1)
   \<and> os_path_exists
          (snd (UpdateProjectList (ex_manifest []) ((ex_env [])\<lparr>IsDirty := dirty_only ''a/b''\<rparr>)
            (ex_world {''a'', ''a/.git'', ''a/.gitignore'', ''a/b'', ''a/b/.git''} [''a/b'', ''a''])))
          (os_path_join (topdir (ex_manifest [])) ''a/b'')"
  by (simp add: reconcile_eval)



text \<open>
  A successful run: the manifest declares \<open>c\<close> and \<open>a\<close>, the clean obsolete tree
  \<open>b\<close> is deleted, and project.list holds \<open>a\<close> and \<open>c\<close>, also after a second run.
\<close>

theorem UpdateProjectList_success_content_witness:
  "fst (UpdateProjectList (ex_manifest [''c'', ''a'']) (ex_env [])
          (ex_world {''a'', ''b'', ''c''} [''a'', ''b'', ''c''])) = Return 0
   \<and> project_list (snd (UpdateProjectList (ex_manifest [''c'', ''a'']) (ex_env [])
          (ex_world {''a'', ''b'', ''c''} [''a'', ''b'', ''c''])))
       = Some (one_per_line [''a'', ''c''])
   \<and> \<not> os_path_exists (snd (UpdateProjectList (ex_manifest [''c'', ''a'']) (ex_env [])
          (ex_world {''a'', ''b'', ''c''} [''a'', ''b'', ''c''])))
        (os_path_join (topdir (ex_manifest [''c'', ''a''])) ''b'')
   \<and> project_list (snd (UpdateProjectList (ex_manifest [''c'', ''a''])
          ((ex_env [])\<lparr>IsDirty := dirty_only ''a''\<rparr>)
          (snd (UpdateProjectList (ex_manifest [''c'', ''a'']) (ex_env [])
             (ex_world {''a'', ''b'', ''c''} [''a'', ''b'', ''c''])))))
       = Some (one_per_line [''a'', ''c''])"
proof -
  have h: "fst (UpdateProjectList (ex_manifest [''c'', ''a'']) (ex_env [])
          (ex_world {''a'', ''b'', ''c''} [''a'', ''b'', ''c''])) = Return 0"
    by (simp add: reconcile_eval)
  have d: "\<not> os_path_exists (snd (UpdateProjectList (ex_manifest [''c'', ''a'']) (ex_env [])
          (ex_world {''a'', ''b'', ''c''} [''a'', ''b'', ''c''])))
        (os_path_join (topdir (ex_manifest [''c'', ''a''])) ''b'')"
    by (simp add: reconcile_eval)
  have s: "join_str [newline] (sort (filter (\<lambda>p. p \<noteq> [])
             (map relpath (projects (ex_manifest [''c'', ''a''])))))
           @ [newline] = one_per_line [''a'', ''c'']"
    by (simp add: reconcile_eval)
  from UpdateProjectList_success_content
         [OF h, where ?e2.0 = "(ex_env [])\<lparr>IsDirty := dirty_only ''a''\<rparr>"] h d s
  show ?thesis by simp
qed

text \<open>
  C5 as stated fails: two projects of the manifest declare the path \<open>a\<close>. The run
  succeeds and project.list holds \<open>a\<close> on two lines, not the sorted unique paths.
\<close>

theorem UpdateProjectList_duplicate_paths_kept:
  "fst (UpdateProjectList (ex_manifest [''a'', ''a'']) (ex_env [])
          (ex_world {''a''} [''a''])) = Return 0
   \<and> project_list (snd (UpdateProjectList (ex_manifest [''a'', ''a'']) (ex_env [])
          (ex_world {''a''} [''a''])))
       = Some (one_per_line [''a'', ''a''])
   \<and> project_list (snd (UpdateProjectList (ex_manifest [''a'', ''a'']) (ex_env [])
          (ex_world {''a''} [''a''])))
       \<noteq> Some (one_per_line (sort (remdups (map relpath (projects (ex_manifest [''a'', ''a'']))))))"
  by (simp add: reconcile_eval)
subsection \<open>The fetch scheduler\<close>

text \<open>What the workers leave in \<open>fetched\<close>; it depends on the set of projects only.\<close>

lemma FetchHelper_fetched:
  "fst (snd (FetchHelper opt p fetched w)) =
     (if Sync_NetworkHalf p \<or> force_broken opt then insert (gitdir p) fetched else fetched)"
  by (simp add: FetchHelper_def FetchHelper_add_def Let_def)

lemma fetch_threads_fetched:
  "fst (fetch_threads opt ps fetched w) =
     fetched \<union> gitdir ` {p \<in> set ps. Sync_NetworkHalf p \<or> force_broken opt}"
proof (induction ps arbitrary: fetched w)
  case Nil
  then show ?case by simp
next
  case (Cons p ps)
  obtain r f' w' where h: "FetchHelper opt p fetched (emit [Sem_acquire, Thread_start (name p)] w) = (r, f', w')"
    by (cases "FetchHelper opt p fetched (emit [Sem_acquire, Thread_start (name p)] w)") auto
  then have f': "f' = (if Sync_NetworkHalf p \<or> force_broken opt then insert (gitdir p) fetched else fetched)"
    using FetchHelper_fetched [of opt p fetched "emit [Sem_acquire, Thread_start (name p)] w"] by simp
  show ?case using Cons.IH [of f' w'] h f' by auto
qed

text \<open>Two orders of the same workers leave the same set.\<close>

lemma fetch_threads_schedule:
  "set ps = set qs \<Longrightarrow> fst (fetch_threads opt ps fetched w) = fst (fetch_threads opt qs fetched w')"
  by (simp add: fetch_threads_fetched)

text \<open>When the sequential loop returns, it returns the projects whose fetch succeeded.\<close>

lemma fetch_sequential_fetched:
  "fst (fetch_sequential opt ps fetched w) = Return s \<Longrightarrow>
     s = fetched \<union> gitdir ` {p \<in> set ps. Sync_NetworkHalf p}"
proof (induction ps arbitrary: fetched w)
  case Nil
  then show ?case by simp
next
  case (Cons p ps)
  then show ?case by (auto simp: Let_def split: if_splits)
qed

lemma fetch_sequential_all_ok:
  "list_all Sync_NetworkHalf ps \<Longrightarrow>
     fst (fetch_sequential opt ps fetched w) = Return (fetched \<union> gitdir ` set ps)"
  by (induction ps arbitrary: fetched w) (auto simp: Let_def)

text \<open>When no fetch fails, every positive number of jobs gives the same set.\<close>

lemma Fetch_all_ok:
  assumes "list_all Sync_NetworkHalf ps" and "0 < j"
  shows "fst (Fetch j ps opt w) = Return (gitdir ` set ps)"
proof (cases "j = 1")
  case True
  obtain r w' where h: "fetch_sequential opt ps {} w = (r, w')" by (cases "fetch_sequential opt ps {} w") auto
  with fetch_sequential_all_ok [OF assms(1), of opt "{}" w] have "r = Return (gitdir ` set ps)" by simp
  with h True show ?thesis by (simp add: Fetch_def)
next
  case False
  obtain f w' where h: "fetch_threads opt ps {} w = (f, w')" by (cases "fetch_threads opt ps {} w") auto
  with fetch_threads_fetched [of opt ps "{}" w] assms(1)
  have "f = gitdir ` set ps" by (auto simp: list_all_iff)
  with h False assms(2) show ?thesis by (simp add: Fetch_def)
qed

lemmas execute_eval =
  Execute_def Execute_flags_def Execute_smart_sync_def Execute_presync_def
  Execute_manifest_def Execute_fetch_def Execute_mirror_def Execute_reconcile_def
  Execute_local_def Execute_notice_def self_jobs_def PostRepoFetch_def ex_env_def
  PostRepoUpgrade_def to_fetch_def

lemmas fetch_eval =
  ex_project_def ex_manifest_def one_per_line_def ex_world_def ex_options_def
  Fetch_def FetchHelper_def FetchHelper_add_def emit_def Let_def

text \<open>
  C1 fails on the code. With \<^verbatim>\<open>force_broken\<close> set and the fetch of \<open>b\<close> failing,
  \<^verbatim>\<open>_Fetch\<close> with one job returns the metadata directory of \<open>a\<close> only; with two jobs
  it returns that of \<open>b\<close> too, whose fetch did not succeed.
\<close>

theorem Fetch_force_broken_differs:
  "fst (Fetch 1 [ex_project ''a'' True, ex_project ''b'' False]
          (ex_options\<lparr>force_broken := True\<rparr>) (ex_world {} [])) = Return {''a/.git''}
   \<and> fst (Fetch 2 [ex_project ''a'' True, ex_project ''b'' False]
          (ex_options\<lparr>force_broken := True\<rparr>) (ex_world {} [])) = Return {''b/.git'', ''a/.git''}
   \<and> \<not> Sync_NetworkHalf (ex_project ''b'' False)
   \<and> gitdir (ex_project ''b'' False) = ''b/.git''"
  by (simp add: fetch_eval)

text \<open>
  C8 fails on the code. With \<^verbatim>\<open>force_broken\<close> unset and the fetch of \<open>a\<close> failing,
  \<^verbatim>\<open>_Fetch\<close> with one job ends the process with status 1. With two jobs the worker
  of \<open>a\<close> releases the semaphore and ends in \<^verbatim>\<open>sys.exit(1)\<close>, which ends that thread
  only: \<^verbatim>\<open>_Fetch\<close> goes on, fetches \<open>b\<close> and returns, and \<^verbatim>\<open>Execute\<close> runs to
  its end and returns.
\<close>

theorem Fetch_threads_failure_goes_on:
  "fst (Fetch 1 [ex_project ''a'' False, ex_project ''b'' True] ex_options (ex_world {} []))
     = SysExit 1
   \<and> FetchHelper ex_options (ex_project ''a'' False) {} (ex_world {} [])
     = (SysExit 1, {},
        emit [Call_Sync_NetworkHalf ''a'', Print_stderr ''error: Cannot fetch a'', Sem_release]
          (ex_world {} []))
   \<and> fst (Fetch 2 [ex_project ''a'' False, ex_project ''b'' True] ex_options (ex_world {} []))
     = Return {''b/.git''}
   \<and> fst (Execute (ex_options\<lparr>jobs := Some 2\<rparr>) (ex_env [ex_project ''a'' False])
            (ex_manifest [''a'']) (ex_world {''a''} [''a''])) = Return ()
   \<and> fst (Execute ex_options (ex_env [ex_project ''a'' False])
            (ex_manifest [''a'']) (ex_world {''a''} [''a''])) = SysExit 1"
  by (simp add: execute_eval fetch_eval reconcile_eval)

subsection \<open>The self-upgrade check\<close>

lemma events_of_emit [simp]: "events_of w (emit es w) = es"
  by (simp add: events_of_def)

lemma events_of_emit2 [simp]: "events_of w (emit es2 (emit es1 w)) = es1 @ es2"
  by (simp add: events_of_def)

lemma events_of_emit3 [simp]: "events_of w (emit es3 (emit es2 (emit es1 w))) = es1 @ es2 @ es3"
  by (simp add: events_of_def)

lemma events_of_emit4 [simp]:
  "events_of w (emit es4 (emit es3 (emit es2 (emit es1 w)))) = es1 @ es2 @ es3 @ es4"
  by (simp add: events_of_def)


text \<open>
  C4. When the project of repo itself has changes, \<^verbatim>\<open>_PostRepoFetch\<close> is a case
  analysis. With verification switched off the upgrade is adopted (its local update is
  run) and no subprocess is run. With the trust directory absent the GnuPG warning is
  printed, no subprocess is run and the upgrade is adopted. With the trust directory
  present and no tag description (a \<^verbatim>\<open>GitError\<close> or an empty description) or a
  description of the commits-ahead shape, no subprocess is run and the upgrade is refused:
  the skipped-upgrade warning is printed and the call returns. With a tagged commit
  \<^verbatim>\<open>git tag -v\<close> is run; on exit status 0 the upgrade is adopted, otherwise refused.
  Adopted means: the local update is run and, when its ledger succeeds,
  \<^verbatim>\<open>RepoChangedException(['--repo-upgraded'])\<close> is raised (not \<^verbatim>\<open>sys.exit\<close>, which is
  what a failing ledger gives).
\<close>

theorem PostRepoFetch_cases:
  assumes "HasChanges rp"
  shows
   "(let r = PostRepoFetch e rp no_verify verbose w; es = events_of w (snd r);
         adopted = (local_updates es = [name rp]
                    \<and> fst r = (if repo_Finish e
                                then Raise (RepoChangedException [''--repo-upgraded''])
                                else SysExit 1));
         refused = (local_updates es = [] \<and> fst r = Return ()
                    \<and> ''warning: Skipped upgrade to unverified version'' \<in> set (printed_stderr es))
     in (no_verify \<longrightarrow>
           adopted \<and> subprocess_runs es = []
           \<and> set (printed_stderr es) \<subseteq> {''info: A new version of repo is available'', [],
                                          ''info: Restarting repo with latest version''})
      \<and> (\<not> no_verify \<and> \<not> gpg_dir_exists e \<longrightarrow>
           adopted \<and> subprocess_runs es = []
           \<and> (''warning: GnuPG was not available during last '' @ [dquote]
                @ ''repo init'' @ [dquote, newline]
                @ ''warning: Cannot automatically authenticate repo.'') \<in> set (printed_stderr es))
      \<and> (\<not> no_verify \<and> gpg_dir_exists e
           \<and> (describe_revision rp = Raises GitError \<or> describe_revision rp = Returns []
               \<or> (\<exists>cur. describe_revision rp = Returns cur \<and> re_match untagged_re cur)) \<longrightarrow>
           refused \<and> subprocess_runs es = [])
      \<and> (\<forall>cur. \<not> no_verify \<and> gpg_dir_exists e \<and> describe_revision rp = Returns cur
           \<and> cur \<noteq> [] \<and> \<not> re_match untagged_re cur \<longrightarrow>
           subprocess_runs es = [[GIT, ''tag'', ''-v'', cur]]
           \<and> (if tag_verify_exit e = 0 then adopted else refused)))"
  using assms
  by (auto simp: PostRepoFetch_def PostRepoFetch_adopt_def VerifyTag_def VerifyTag_not_signed_def Let_def)

subsection \<open>Execute\<close>

lemma network_fetches_append [simp]:
  "network_fetches (xs @ ys) = network_fetches xs @ network_fetches ys"
  by (induction xs rule: network_fetches.induct) auto

lemma network_fetches_map_join [simp]:
  "network_fetches (map (\<lambda>p. Thread_join (f p)) ps) = []"
  by (induction ps) auto

lemma network_fetches_map_upgrade [simp]:
  "network_fetches (map (\<lambda>p. Call_PostRepoUpgrade (f p)) ps) = []"
  by (induction ps) auto

lemma emit_emit [simp]: "emit es2 (emit es1 w) = emit (es1 @ es2) w"
  by (simp add: emit_def)

lemma emit_Nil [simp]: "emit [] w = w"
  by (simp add: emit_def)

lemma emits_refl: "emits P [] w w"
  unfolding emits_def by (rule exI [of _ "[]"]) simp

lemma emits_emit: "list_all P es \<Longrightarrow> network_fetches es = ns \<Longrightarrow> emits P ns w (emit es w)"
  unfolding emits_def by blast

lemma emits_trans: "emits P ns1 w w1 \<Longrightarrow> emits P ns2 w1 w2 \<Longrightarrow> emits P (ns1 @ ns2) w w2"
  unfolding emits_def by auto

lemma emits_emit_left:
  "list_all P es \<Longrightarrow> emits P ns (emit es w) w' \<Longrightarrow> emits P (network_fetches es @ ns) w w'"
  using emits_trans [OF emits_emit [of P es "network_fetches es" w]] by simp

lemma emits_emit_right:
  "list_all P es \<Longrightarrow> emits P ns w w' \<Longrightarrow> emits P (ns @ network_fetches es) w (emit es w')"
  using emits_trans [OF _ emits_emit [of P es "network_fetches es" w']] by simp

lemma fetch_sequential_emits:
  "\<exists>k. emits (network_only_event mp rp) (map name (take k ps)) w (snd (fetch_sequential opt ps fetched w))"
proof (induction ps arbitrary: fetched w)
  case Nil
  then show ?case by (simp add: emits_refl)
next
  case (Cons p ps)
  let ?P = "network_only_event mp rp"
  let ?w1 = "emit [Progress_update, Call_Sync_NetworkHalf (name p)] w"
  let ?w2 = "emit [Print_stderr (''error: Cannot fetch '' @ name p)] ?w1"
  let ?w3 = "emit [Print_stderr ''warn: --force-broken, continuing to sync''] ?w2"
  consider (ok) "Sync_NetworkHalf p" | (force) "\<not> Sync_NetworkHalf p" "force_broken opt"
    | (stop) "\<not> Sync_NetworkHalf p" "\<not> force_broken opt" by blast
  then show ?case
  proof cases
    case ok
    from Cons.IH [where fetched = "insert (gitdir p) fetched" and w = ?w1] obtain k where
      "emits ?P (map name (take k ps)) ?w1 (snd (fetch_sequential opt ps (insert (gitdir p) fetched) ?w1))"
      by blast
    then have "emits ?P (network_fetches [Progress_update, Call_Sync_NetworkHalf (name p)] @ map name (take k ps))
                 w (snd (fetch_sequential opt ps (insert (gitdir p) fetched) ?w1))"
      by (intro emits_emit_left) simp_all
    then have "emits ?P (map name (take (Suc k) (p # ps))) w (snd (fetch_sequential opt (p # ps) fetched w))"
      using ok by (simp add: Let_def del: emit_emit)
    then show ?thesis by blast
  next
    case force
    from Cons.IH [where fetched = fetched and w = ?w3] obtain k where
      "emits ?P (map name (take k ps)) ?w3 (snd (fetch_sequential opt ps fetched ?w3))"
      by blast
    then have "emits ?P (network_fetches [Progress_update, Call_Sync_NetworkHalf (name p),
                   Print_stderr (''error: Cannot fetch '' @ name p),
                   Print_stderr ''warn: --force-broken, continuing to sync''] @ map name (take k ps))
                 w (snd (fetch_sequential opt ps fetched ?w3))"
      by (intro emits_emit_left) simp_all
    then have "emits ?P (map name (take (Suc k) (p # ps))) w (snd (fetch_sequential opt (p # ps) fetched w))"
      using force by (simp add: Let_def)
    then show ?thesis by blast
  next
    case stop
    have "emits ?P (network_fetches [Progress_update, Call_Sync_NetworkHalf (name p),
                   Print_stderr (''error: Cannot fetch '' @ name p)]) w ?w2"
      unfolding emit_emit by (intro emits_emit) simp_all
    then have "emits ?P (map name (take (Suc 0) (p # ps))) w (snd (fetch_sequential opt (p # ps) fetched w))"
      using stop by (simp add: Let_def)
    then show ?thesis by blast
  qed
qed

lemma FetchHelper_emits:
  "emits (network_only_event mp rp) [name p] w (snd (snd (FetchHelper opt p fetched w)))"
  by (auto simp: FetchHelper_def FetchHelper_add_def Let_def intro!: emits_emit)

lemma fetch_threads_emits:
  "emits (network_only_event mp rp) (map name ps) w (snd (fetch_threads opt ps fetched w))"
proof (induction ps arbitrary: fetched w)
  case Nil
  then show ?case by (simp add: emits_refl)
next
  case (Cons p ps)
  let ?P = "network_only_event mp rp"
  let ?w1 = "emit [Sem_acquire, Thread_start (name p)] w"
  obtain r f' w' where h: "FetchHelper opt p fetched ?w1 = (r, f', w')"
    by (cases "FetchHelper opt p fetched ?w1") auto
  have a: "emits ?P [name p] ?w1 w'" using FetchHelper_emits [of mp rp p ?w1 opt fetched] h by simp
  have "emits ?P ([name p] @ map name ps) ?w1 (snd (fetch_threads opt ps f' w'))"
    using a Cons.IH [where fetched = f' and w = w'] by (rule emits_trans)
  then have "emits ?P (network_fetches [Sem_acquire, Thread_start (name p)] @ [name p] @ map name ps)
                w (snd (fetch_threads opt ps f' w'))"
    by (intro emits_emit_left) simp_all
  then show ?case using h by (simp del: emit_emit)
qed

lemma Fetch_emits:
  "\<exists>k. emits (network_only_event mp rp) (map name (take k ps)) w (snd (Fetch j ps opt w))"
proof -
  let ?P = "network_only_event mp rp"
  consider (seq) "j = 1" | (neg) "j \<noteq> 1" "j < 0" | (zero) "j = 0" "ps \<noteq> []"
    | (thr) "j \<noteq> 1" "\<not> j < 0" "\<not> (j = 0 \<and> ps \<noteq> [])" by blast
  then show ?thesis
  proof cases
    case seq
    from fetch_sequential_emits [of mp rp ps w opt "{}"] obtain k where
      k: "emits ?P (map name (take k ps)) w (snd (fetch_sequential opt ps {} w))" by blast
    obtain r w' where h: "fetch_sequential opt ps {} w = (r, w')"
      by (cases "fetch_sequential opt ps {} w") auto
    show ?thesis
    proof (cases r)
      case (Return f)
      have "emits ?P (map name (take k ps) @ network_fetches [Progress_end]) w (emit [Progress_end] w')"
        using k h by (intro emits_emit_right) simp_all
      then show ?thesis using seq h Return by (auto simp: Fetch_def)
    qed (use seq h k in \<open>auto simp: Fetch_def\<close>)
  next
    case neg
    then have "emits ?P (map name (take 0 ps)) w (snd (Fetch j ps opt w))"
      by (simp add: Fetch_def emits_refl)
    then show ?thesis by blast
  next
    case zero
    then have "emits ?P (map name (take 0 ps)) w (snd (Fetch j ps opt w))"
      by (simp add: Fetch_def emits_refl)
    then show ?thesis by blast
  next
    case thr
    obtain f w' where h: "fetch_threads opt ps {} w = (f, w')"
      by (cases "fetch_threads opt ps {} w") auto
    have "emits ?P (map name ps) w w'" using fetch_threads_emits [of mp rp ps w opt "{}"] h by simp
    then have "emits ?P (map name ps @ network_fetches (map (\<lambda>p. Thread_join (name p)) ps @ [Progress_end]))
                 w (emit (map (\<lambda>p. Thread_join (name p)) ps @ [Progress_end]) w')"
      by (intro emits_emit_right) (simp_all add: list_all_iff)
    then have "emits ?P (map name (take (length ps) ps)) w (snd (Fetch j ps opt w))"
      using thr h by (auto simp: Fetch_def)
    then show ?thesis by blast
  qed
qed

lemma VerifyTag_emits:
  "emits (network_only_event mp rp) [] w (snd (VerifyTag e p w))"
  by (auto simp: VerifyTag_def VerifyTag_not_signed_def Let_def
           split: attempt.splits exn.splits option.splits intro!: emits_emit emits_refl)

lemma PostRepoFetch_emits:
  "emits (network_only_event mp (name p)) [] w (snd (PostRepoFetch e p nv vb w))"
proof -
  let ?P = "network_only_event mp (name p)"
  let ?w1 = "emit [Print_stderr ''info: A new version of repo is available'', Print_stderr []] w"
  have adopt: "\<And>w0. emits ?P [] w0 (snd (PostRepoFetch_adopt e p w0))"
    by (auto simp: PostRepoFetch_adopt_def Let_def intro!: emits_emit)
  have w1: "emits ?P [] w ?w1" by (intro emits_emit) simp_all
  show ?thesis
  proof (cases "HasChanges p")
    case False
    then show ?thesis by (auto simp: PostRepoFetch_def intro!: emits_emit emits_refl)
  next
    case True
    show ?thesis
    proof (cases nv)
      case True
      have "emits ?P ([] @ []) w (snd (PostRepoFetch_adopt e p ?w1))"
        using w1 adopt by (rule emits_trans)
      with True \<open>HasChanges p\<close> show ?thesis by (simp add: PostRepoFetch_def Let_def del: emit_emit)
    next
      case False
      obtain r w2 where h: "VerifyTag e p ?w1 = (r, w2)" by (cases "VerifyTag e p ?w1") auto
      have "emits ?P [] ?w1 w2" using VerifyTag_emits [of mp "name p" ?w1 e p] h by simp
      with w1 have w2: "emits ?P ([] @ []) w w2" by (rule emits_trans)
      have w3: "emits ?P (([] @ []) @ []) w (snd (PostRepoFetch_adopt e p w2))"
        using w2 adopt by (rule emits_trans)
      have w4: "emits ?P (([] @ []) @ network_fetches [Print_stderr ''warning: Skipped upgrade to unverified version''])
                  w (emit [Print_stderr ''warning: Skipped upgrade to unverified version''] w2)"
        using w2 by (intro emits_emit_right) simp_all
      show ?thesis using False \<open>HasChanges p\<close> h w2 w3 w4
        by (cases r) (auto simp: PostRepoFetch_def Let_def simp del: emit_emit)
    qed
  qed
qed


lemma run_steps_append:
  "run_steps (ss @ ts) w =
     (case run_steps ss w of (None, w') \<Rightarrow> run_steps ts w' | (Some r, w') \<Rightarrow> (Some r, w'))"
  by (induction ss arbitrary: w) (auto split: prod.splits option.splits)

lemma Execute_flags_emits: "emits (network_only_event mp rp) [] w (snd (Execute_flags opt w))"
  by (auto simp: Execute_flags_def intro!: emits_emit emits_refl)

lemma Execute_smart_sync_emits:
  "emits (network_only_event mp rp) [] w (snd (Execute_smart_sync opt e m w))"
  by (auto simp: Execute_smart_sync_def Let_def
           split: attempt.splits exn.splits prod.splits option.splits
           intro!: emits_emit emits_refl)

lemma Execute_presync_emits:
  "fst (Execute_presync opt m w) = None
   \<and> emits (network_only_event mp rp) [] w (snd (Execute_presync opt m w))"
  by (auto simp: Execute_presync_def PostRepoUpgrade_def Let_def list_all_iff
           intro!: emits_emit)

lemma Execute_manifest_emits:
  "emits (network_only_event (name (manifestProject m)) rp)
     (if local_only opt then [] else [name (manifestProject m)])
     w (snd (Execute_manifest opt e m w))"
  by (auto simp: Execute_manifest_def Let_def intro!: emits_emit emits_refl)

lemma Execute_fetch_network_only:
  assumes "network_only opt" and "\<not> local_only opt"
  shows "\<exists>r k. fst (Execute_fetch opt e m w) = Some r
           \<and> emits (network_only_event mp (name (repoProject m))) (map name (take k (to_fetch e m)))
                w (snd (Execute_fetch opt e m w))"
proof -
  let ?P = "network_only_event mp (name (repoProject m))"
  obtain r1 w1 where f: "Fetch (self_jobs opt) (to_fetch e m) opt w = (r1, w1)"
    by (cases "Fetch (self_jobs opt) (to_fetch e m) opt w") auto
  from Fetch_emits [where mp = mp and rp = "name (repoProject m)" and ps = "to_fetch e m" and w = w and j = "self_jobs opt" and opt = opt] f
  obtain k where k: "emits ?P (map name (take k (to_fetch e m))) w w1" by auto
  obtain r2 w2 where p: "PostRepoFetch e (repoProject m) (no_repo_verify opt) False w1 = (r2, w2)"
    by (cases "PostRepoFetch e (repoProject m) (no_repo_verify opt) False w1") auto
  have "emits ?P [] w1 w2"
    using PostRepoFetch_emits [where mp = mp and p = "repoProject m" and w = w1 and e = e and nv = "no_repo_verify opt" and vb = False] p by simp
  with k have k2: "emits ?P (map name (take k (to_fetch e m)) @ []) w w2" by (rule emits_trans)
  show ?thesis
  proof (cases r1)
    case (Return fetched)
    then show ?thesis using assms f p k2 by (cases r2) (auto simp: Execute_fetch_def)
  qed (use assms f k in \<open>auto simp: Execute_fetch_def\<close>)
qed

text \<open>A run that gets past the flag check with the network-only flag set is not local-only.\<close>

lemma Execute_flags_network_only:
  "network_only opt \<Longrightarrow> Execute_flags opt w = (None, w') \<Longrightarrow> \<not> local_only opt"
  by (auto simp: Execute_flags_def split: if_splits)

lemma run_steps_flags_network_only:
  assumes "network_only opt" and "run_steps (Execute_flags opt # ss) w = (None, w')"
  shows "\<not> local_only opt"
proof -
  obtain r w1 where f: "Execute_flags opt w = (r, w1)" by (cases "Execute_flags opt w") auto
  with assms(2) have "r = None" by (cases r) auto
  with f assms(1) show ?thesis using Execute_flags_network_only by blast
qed

text \<open>With the network-only flag set the fetch step always ends the run.\<close>

lemma Execute_fetch_network_only_result:
  assumes "network_only opt" and "\<not> local_only opt"
  shows "Execute_fetch opt e m w =
     (case Fetch (self_jobs opt) (to_fetch e m) opt w of
        (Return f, w5) \<Rightarrow>
          (Some (fst (PostRepoFetch e (repoProject m) (no_repo_verify opt) False w5)),
           snd (PostRepoFetch e (repoProject m) (no_repo_verify opt) False w5))
      | (SysExit n, w5) \<Rightarrow> (Some (SysExit n), w5)
      | (Raise x, w5) \<Rightarrow> (Some (Raise x), w5)
      | (Blocks, w5) \<Rightarrow> (Some Blocks, w5))"
proof -
  obtain r1 w1 where f: "Fetch (self_jobs opt) (to_fetch e m) opt w = (r1, w1)"
    by (cases "Fetch (self_jobs opt) (to_fetch e m) opt w") auto
  obtain r2 w2 where p: "PostRepoFetch e (repoProject m) (no_repo_verify opt) False w1 = (r2, w2)"
    by (cases "PostRepoFetch e (repoProject m) (no_repo_verify opt) False w1") auto
  show ?thesis using assms f p by (cases r1; cases r2) (auto simp: Execute_fetch_def)
qed

lemma Execute_network_only_result:
  assumes "network_only opt"
  shows "Execute opt e m w =
     (case run_steps [Execute_flags opt, Execute_smart_sync opt e m, Execute_presync opt m,
                      Execute_manifest opt e m] w of
        (Some r, w') \<Rightarrow> (r, w')
      | (None, w4) \<Rightarrow>
          (case Fetch (self_jobs opt) (to_fetch e m) opt w4 of
             (Return f, w5) \<Rightarrow> PostRepoFetch e (repoProject m) (no_repo_verify opt) False w5
           | (SysExit n, w5) \<Rightarrow> (SysExit n, w5)
           | (Raise x, w5) \<Rightarrow> (Raise x, w5)
           | (Blocks, w5) \<Rightarrow> (Blocks, w5)))"
proof -
  let ?four = "[Execute_flags opt, Execute_smart_sync opt e m, Execute_presync opt m,
                Execute_manifest opt e m]"
  let ?rest = "[Execute_fetch opt e m, Execute_mirror m, Execute_reconcile e m,
                Execute_local opt e, Execute_notice m]"
  have ex: "Execute opt e m w =
      (case (case run_steps ?four w of (None, w') \<Rightarrow> run_steps ?rest w'
                                     | (Some r, w') \<Rightarrow> (Some r, w')) of
         (None, w') \<Rightarrow> (Return (), w') | (Some r, w') \<Rightarrow> (r, w'))"
    using run_steps_append [of ?four ?rest w] by (simp add: Execute_def)
  obtain r4 w4 where s: "run_steps ?four w = (r4, w4)" by (cases "run_steps ?four w") auto
  show ?thesis
  proof (cases r4)
    case (Some r)
    with s show ?thesis unfolding ex by simp
  next
    case None
    with s assms have nl: "\<not> local_only opt"
      using run_steps_flags_network_only [of opt _ w w4] by blast
    obtain r1 w1 where f: "Fetch (self_jobs opt) (to_fetch e m) opt w4 = (r1, w1)"
      by (cases "Fetch (self_jobs opt) (to_fetch e m) opt w4") auto
    obtain r2 w2 where p: "PostRepoFetch e (repoProject m) (no_repo_verify opt) False w1 = (r2, w2)"
      by (cases "PostRepoFetch e (repoProject m) (no_repo_verify opt) False w1") auto
    have "run_steps ?rest w4 =
            (case Execute_fetch opt e m w4 of
               (None, w') \<Rightarrow> run_steps [Execute_mirror m, Execute_reconcile e m,
                                        Execute_local opt e, Execute_notice m] w'
             | (Some r, w') \<Rightarrow> (Some r, w'))"
      by simp
    then show ?thesis
      unfolding ex s None
      using Execute_fetch_network_only_result [OF assms nl, of e m w4] f p
      by (cases r1) simp_all
  qed
qed

text \<open>
  C6 (as amended). In every run with the network-only flag set, \<^verbatim>\<open>Execute\<close> ends
  within its first five steps (flag check, smart sync, pre-sync, manifest update, fetch
  with the self-upgrade check). When the first four steps go through and the fetch phase
  and the self-upgrade check return, \<^verbatim>\<open>Execute\<close> returns there, in the world the
  self-upgrade check leaves; otherwise it ends with the exit or the exception of the step
  that aborts: the result of \<^verbatim>\<open>Execute\<close> is that of the first four steps when one of them
  ends the run, else that of the fetch when it does not return, else that of the
  self-upgrade check. The run only adds events to the trace, so no directory entry
  is deleted and project.list is not written; there is no reconciliation and no local
  update of a selected project: \<^verbatim>\<open>Sync_LocalHalf\<close> is called for no project but the
  manifest project (when it has changes) and the project of repo itself (when an upgrade
  is adopted). The network fetches are an initial part of: the manifest project, then
  the projects to fetch, each once, so there is no retry fetch.
\<close>

theorem Execute_network_only:
  assumes "network_only opt"
  shows "(\<exists>es k r.
           Execute opt e m w = (r, emit es w)
         \<and> run_steps [Execute_flags opt, Execute_smart_sync opt e m, Execute_presync opt m,
                      Execute_manifest opt e m, Execute_fetch opt e m] w = (Some r, emit es w)
         \<and> list_all (network_only_event (name (manifestProject m)) (name (repoProject m))) es
         \<and> network_fetches es = take k (name (manifestProject m) # map name (to_fetch e m)))
       \<and> (\<forall>w4 f w5 w6.
             run_steps [Execute_flags opt, Execute_smart_sync opt e m, Execute_presync opt m,
                        Execute_manifest opt e m] w = (None, w4)
           \<and> Fetch (self_jobs opt) (to_fetch e m) opt w4 = (Return f, w5)
           \<and> PostRepoFetch e (repoProject m) (no_repo_verify opt) False w5 = (Return (), w6)
           \<longrightarrow> Execute opt e m w = (Return (), w6))
       \<and> Execute opt e m w =
           (case run_steps [Execute_flags opt, Execute_smart_sync opt e m, Execute_presync opt m,
                            Execute_manifest opt e m] w of
              (Some r, w') \<Rightarrow> (r, w')
            | (None, w4) \<Rightarrow>
                (case Fetch (self_jobs opt) (to_fetch e m) opt w4 of
                   (Return f, w5) \<Rightarrow> PostRepoFetch e (repoProject m) (no_repo_verify opt) False w5
                 | (SysExit n, w5) \<Rightarrow> (SysExit n, w5)
                 | (Raise x, w5) \<Rightarrow> (Raise x, w5)
                 | (Blocks, w5) \<Rightarrow> (Blocks, w5)))"
proof (intro conjI allI impI)
  fix w4 f w5 w6
  assume a: "run_steps [Execute_flags opt, Execute_smart_sync opt e m, Execute_presync opt m,
                        Execute_manifest opt e m] w = (None, w4)
           \<and> Fetch (self_jobs opt) (to_fetch e m) opt w4 = (Return f, w5)
           \<and> PostRepoFetch e (repoProject m) (no_repo_verify opt) False w5 = (Return (), w6)"
  then show "Execute opt e m w = (Return (), w6)"
    by (simp add: Execute_network_only_result [OF assms])
next
  show "Execute opt e m w =
           (case run_steps [Execute_flags opt, Execute_smart_sync opt e m, Execute_presync opt m,
                            Execute_manifest opt e m] w of
              (Some r, w') \<Rightarrow> (r, w')
            | (None, w4) \<Rightarrow>
                (case Fetch (self_jobs opt) (to_fetch e m) opt w4 of
                   (Return f, w5) \<Rightarrow> PostRepoFetch e (repoProject m) (no_repo_verify opt) False w5
                 | (SysExit n, w5) \<Rightarrow> (SysExit n, w5)
                 | (Raise x, w5) \<Rightarrow> (Raise x, w5)
                 | (Blocks, w5) \<Rightarrow> (Blocks, w5)))"
    by (rule Execute_network_only_result [OF assms])
next
  show "\<exists>es k r.
           Execute opt e m w = (r, emit es w)
         \<and> run_steps [Execute_flags opt, Execute_smart_sync opt e m, Execute_presync opt m,
                      Execute_manifest opt e m, Execute_fetch opt e m] w = (Some r, emit es w)
         \<and> list_all (network_only_event (name (manifestProject m)) (name (repoProject m))) es
         \<and> network_fetches es = take k (name (manifestProject m) # map name (to_fetch e m))"
  proof -
  let ?P = "network_only_event (name (manifestProject m)) (name (repoProject m))"
  let ?five = "[Execute_flags opt, Execute_smart_sync opt e m, Execute_presync opt m,
                Execute_manifest opt e m, Execute_fetch opt e m]"
  let ?all = "name (manifestProject m) # map name (to_fetch e m)"
  have five: "\<exists>r w' k. run_steps ?five w = (Some r, w') \<and> emits ?P (take k ?all) w w'"
  proof (cases "detach_head opt \<or> local_only opt")
    case True
    then have "run_steps ?five w = (Some (SysExit 1), snd (Execute_flags opt w))"
      using assms by (auto simp: Execute_flags_def)
    moreover have "emits ?P (take 0 ?all) w (snd (Execute_flags opt w))"
      using Execute_flags_emits [where mp = "name (manifestProject m)" and rp = "name (repoProject m)" and w = w and opt = opt] by simp
    ultimately show ?thesis by blast
  next
    case False
    then have s1: "Execute_flags opt w = (None, w)" by (simp add: Execute_flags_def)
    obtain r2 w2 where s2: "Execute_smart_sync opt e m w = (r2, w2)"
      by (cases "Execute_smart_sync opt e m w") auto
    have e2: "emits ?P [] w w2"
      using Execute_smart_sync_emits [where mp = "name (manifestProject m)" and rp = "name (repoProject m)" and w = w and opt = opt and e = e and m = m] s2
      by simp
    show ?thesis
    proof (cases r2)
      case (Some r)
      then have "run_steps ?five w = (Some r, w2)" using s1 s2 by simp
      moreover have "emits ?P (take 0 ?all) w w2" using e2 by simp
      ultimately show ?thesis by blast
    next
      case None
      obtain w3 where s3: "Execute_presync opt m w2 = (None, w3)"
        using Execute_presync_emits [where opt = opt and m = m and w = w2] by (cases "Execute_presync opt m w2") auto
      have "emits ?P [] w2 w3"
        using Execute_presync_emits [where opt = opt and m = m and w = w2 and mp = "name (manifestProject m)" and rp = "name (repoProject m)"] s3
        by simp
      with e2 have e3: "emits ?P ([] @ []) w w3" by (rule emits_trans)
      obtain r4 w4 where s4: "Execute_manifest opt e m w3 = (r4, w4)"
        by (cases "Execute_manifest opt e m w3") auto
      have "emits ?P [name (manifestProject m)] w3 w4"
        using Execute_manifest_emits [where m = m and rp = "name (repoProject m)" and opt = opt and w = w3 and e = e] s4 False by simp
      with e3 have e4: "emits ?P (([] @ []) @ [name (manifestProject m)]) w w4" by (rule emits_trans)
      show ?thesis
      proof (cases r4)
        case (Some r)
        then have "run_steps ?five w = (Some r, w4)" using s1 s2 None s3 s4 by simp
        moreover have "emits ?P (take 1 ?all) w w4" using e4 by simp
        ultimately show ?thesis by blast
      next
        case n4: None
        from Execute_fetch_network_only [where opt = opt and e = e and m = m and mp = "name (manifestProject m)" and w = w4] assms False
        obtain r k where f: "fst (Execute_fetch opt e m w4) = Some r"
          "emits ?P (map name (take k (to_fetch e m))) w4 (snd (Execute_fetch opt e m w4))"
          by auto
        obtain w5 where s5: "Execute_fetch opt e m w4 = (Some r, w5)"
          using f(1) by (cases "Execute_fetch opt e m w4") auto
        with f(2) have e5: "emits ?P (map name (take k (to_fetch e m))) w4 w5" by simp
        have "run_steps ?five w = (Some r, w5)"
          using s1 s2 None s3 s4 n4 s5 by simp
        moreover have "emits ?P ((([] @ []) @ [name (manifestProject m)]) @ map name (take k (to_fetch e m)))
            w w5"
          using e4 e5 by (rule emits_trans)
        then have "emits ?P (take (Suc k) ?all) w w5"
          by (simp add: take_map)
        ultimately show ?thesis by blast
      qed
    qed
  qed
  then obtain r w' k where f: "run_steps ?five w = (Some r, w')" "emits ?P (take k ?all) w w'"
    by blast
  have "Execute opt e m w = (r, w')"
    using run_steps_append [of ?five "[Execute_mirror m, Execute_reconcile e m, Execute_local opt e,
                                       Execute_notice m]" w] f(1)
    by (simp add: Execute_def)
  moreover from f(2) obtain es where "w' = emit es w" "list_all ?P es" "network_fetches es = take k ?all"
    unfolding emits_def by blast
  ultimately show ?thesis using f(1) by blast
qed
qed

lemma emit_quiet_exI:
  "network_fetches xs = [] \<Longrightarrow> local_updates xs = [] \<Longrightarrow>
     \<exists>es. emit xs w = emit es w \<and> network_fetches es = [] \<and> local_updates es = []"
  by blast

text \<open>
  C7. In a run with the smart-sync flag set: if the manifest declares no manifest
  server, \<^verbatim>\<open>Execute\<close> ends in \<^verbatim>\<open>sys.exit(1)\<close> and all it has done is print one
  error message; if the manifest declares a server and \<^verbatim>\<open>GetApprovedManifest\<close>
  returns \<^verbatim>\<open>success = False\<close> or raises \<^verbatim>\<open>socket.error\<close>, \<^verbatim>\<open>Execute\<close> ends in
  \<^verbatim>\<open>sys.exit(1)\<close>, having only added events to the trace, none of them a network
  fetch or a local update.
\<close>

theorem Execute_smart_sync_errors:
  assumes "smart_sync opt"
  shows "(manifest_server m = [] \<longrightarrow>
            fst (Execute opt e m w) = SysExit 1
          \<and> (\<exists>msg. snd (Execute opt e m w) = emit [Print_stderr msg] w))
       \<and> (manifest_server m \<noteq> []
          \<and> (GetApprovedManifest e = Raises SocketError
             \<or> (\<exists>msg. GetApprovedManifest e = Returns (False, msg))) \<longrightarrow>
            fst (Execute opt e m w) = SysExit 1
          \<and> (\<exists>es. snd (Execute opt e m w) = emit es w
                 \<and> network_fetches es = [] \<and> local_updates es = []))"
proof (intro conjI impI)
  assume n: "manifest_server m = []"
  show "fst (Execute opt e m w) = SysExit 1"
    using assms n by (simp add: Execute_def Execute_flags_def Execute_smart_sync_def)
  show "\<exists>msg. snd (Execute opt e m w) = emit [Print_stderr msg] w"
    using assms n by (auto simp: Execute_def Execute_flags_def Execute_smart_sync_def)
next
  assume a: "manifest_server m \<noteq> []
          \<and> (GetApprovedManifest e = Raises SocketError
             \<or> (\<exists>msg. GetApprovedManifest e = Returns (False, msg)))"
  show "fst (Execute opt e m w) = SysExit 1"
    using assms a by (auto simp: Execute_def Execute_flags_def Execute_smart_sync_def Let_def)
  have fl: "\<exists>es. snd (Execute_flags opt w) = emit es w \<and> network_fetches es = [] \<and> local_updates es = []"
    if "fst (Execute_flags opt w) \<noteq> None"
    using that by (auto simp: Execute_flags_def split: if_splits intro!: emit_quiet_exI)
  have sm: "\<exists>es. snd (Execute_smart_sync opt e m w) = emit es w
                    \<and> network_fetches es = [] \<and> local_updates es = []"
    using assms a
    by (auto simp: Execute_smart_sync_def Let_def intro!: emit_quiet_exI)
  have sn: "fst (Execute_smart_sync opt e m w) \<noteq> None"
    using assms a by (auto simp: Execute_smart_sync_def Let_def)
  show "\<exists>es. snd (Execute opt e m w) = emit es w
                 \<and> network_fetches es = [] \<and> local_updates es = []"
  proof (cases "fst (Execute_flags opt w)")
    case None
    then have f: "Execute_flags opt w = (None, w)"
      by (auto simp: Execute_flags_def split: if_splits)
    from sn obtain r w2 where s2: "Execute_smart_sync opt e m w = (Some r, w2)"
      by (cases "Execute_smart_sync opt e m w") auto
    then have "snd (Execute opt e m w) = snd (Execute_smart_sync opt e m w)"
      using f by (simp add: Execute_def)
    with sm show ?thesis by simp
  next
    case (Some r)
    then obtain w1 where f: "Execute_flags opt w = (Some r, w1)"
      by (cases "Execute_flags opt w") auto
    then have "snd (Execute opt e m w) = snd (Execute_flags opt w)"
      by (simp add: Execute_def)
    with fl Some show ?thesis by simp
  qed
qed

text \<open>What the steps of \<^verbatim>\<open>Execute\<close> add to the trace.\<close>

lemma no_fetch_list: "list_all no_fetch es \<longleftrightarrow> network_fetches es = []"
  by (induction es rule: network_fetches.induct) (simp_all add: no_fetch_def)

lemma adds_refl: "adds P w w"
  unfolding adds_def by (rule exI [of _ "[]"]) simp

lemma adds_trans:
  assumes "adds P w w1" and "adds P w1 w2"
  shows "adds P w w2"
proof -
  from assms obtain es1 es2 where
    "trace w1 = trace w @ es1" "list_all P es1" "trace w2 = trace w1 @ es2" "list_all P es2"
    unfolding adds_def by blast
  then have "trace w2 = trace w @ (es1 @ es2) \<and> list_all P (es1 @ es2)" by simp
  then show ?thesis unfolding adds_def by blast
qed

lemma adds_emit: "list_all P es \<Longrightarrow> adds P w (emit es w)"
  unfolding adds_def by (rule exI [of _ es]) (simp add: emit_def)

lemma adds_mono: "adds P w w' \<Longrightarrow> (\<And>ev. P ev \<Longrightarrow> Q ev) \<Longrightarrow> adds Q w w'"
  unfolding adds_def by (auto simp: list_all_iff)

lemma emits_adds: "emits P ns w w' \<Longrightarrow> adds (\<lambda>ev. True) w w'"
  unfolding emits_def adds_def by (auto simp: emit_def list_all_iff)

lemma emits_adds_no_fetch: "emits P [] w w' \<Longrightarrow> adds no_fetch w w'"
  unfolding emits_def adds_def by (auto simp: emit_def no_fetch_list)

lemma rmtree_adds: "adds no_fetch w (snd (rmtree e s w))"
  unfolding adds_def by (rule exI [of _ "[Call_rmtree s]"]) (simp add: no_fetch_def)

lemma rmdir_adds: "adds no_fetch w (rmdir s w)"
  unfolding adds_def by (rule exI [of _ "[Call_rmdir s]"]) (simp add: no_fetch_def)

lemma prune_parents_adds: "adds no_fetch w (prune_parents e t d w)"
proof (induction e t d w rule: prune_parents.induct)
  case (1 e t d w)
  show ?case
  proof (cases "d \<noteq> t \<and> rmdir_succeeds e d w")
    case True
    with 1 have "adds no_fetch (rmdir d w) (prune_parents e t (os_path_dirname d) (rmdir d w))"
      by simp
    with rmdir_adds have "adds no_fetch w (prune_parents e t (os_path_dirname d) (rmdir d w))"
      by (rule adds_trans)
    with True show ?thesis by (subst prune_parents.simps) simp
  next
    case False
    then show ?thesis by (subst prune_parents.simps) (auto simp: adds_refl)
  qed
qed

lemma remove_obsolete_adds: "adds no_fetch w (snd (remove_obsolete e t new old w))"
proof (induction old arbitrary: w)
  case Nil
  show ?case by (simp add: adds_refl)
next
  case (Cons p old)
  let ?w0 = "emit [Print_stderr (''Deleting obsolete path '' @ os_path_join t p)] w"
  let ?tree = "os_path_join t p"
  obtain r w1 where r: "rmtree e ?tree ?w0 = (r, w1)" by (cases "rmtree e ?tree ?w0") auto
  have a0: "adds no_fetch w ?w0" by (intro adds_emit) (simp add: no_fetch_def)
  have "adds no_fetch ?w0 w1" using rmtree_adds [of ?w0 e ?tree] r by simp
  with a0 have a1: "adds no_fetch w w1" by (rule adds_trans)
  have "adds no_fetch w1 (prune_parents e t (os_path_dirname ?tree) w1)"
    by (rule prune_parents_adds)
  with a1 have "adds no_fetch w (prune_parents e t (os_path_dirname ?tree) w1)"
    by (rule adds_trans)
  then have a2: "adds no_fetch w
      (snd (remove_obsolete e t new old (prune_parents e t (os_path_dirname ?tree) w1)))"
    using Cons by (rule adds_trans)
  have d: "\<And>a b. adds no_fetch w (emit [Print_stderr a, Print_stderr b] w)"
    by (intro adds_emit) (simp add: no_fetch_def)
  show ?case using r a1 a2 d Cons [of w] by (cases r) (auto simp: Let_def)
qed

lemma write_project_list_adds: "adds no_fetch w (write_project_list new w)"
  unfolding adds_def
  by (rule exI [of _ "[Write_project_list (project_list_content new)]"])
     (simp add: write_project_list_def no_fetch_def)

lemma UpdateProjectList_adds: "adds no_fetch w (snd (UpdateProjectList m e w))"
proof (cases "project_list w")
  case None
  then show ?thesis by (simp add: UpdateProjectList_def Let_def write_project_list_adds)
next
  case (Some content)
  let ?r = "remove_obsolete e (topdir m) (new_project_paths m) (split_char newline content) w"
  have a: "adds no_fetch w (snd ?r)" by (rule remove_obsolete_adds)
  then have b: "adds no_fetch w (write_project_list (new_project_paths m) (snd ?r))"
    using write_project_list_adds by (rule adds_trans)
  show ?thesis using Some a b
    by (cases ?r; cases "fst ?r") (auto simp: UpdateProjectList_def Let_def)
qed

lemma Execute_reconcile_adds: "adds no_fetch w (snd (Execute_reconcile e m w))"
proof -
  obtain r w' where u: "UpdateProjectList m e w = (r, w')"
    by (cases "UpdateProjectList m e w") auto
  then have "snd (Execute_reconcile e m w) = w'"
    by (cases r) (auto simp: Execute_reconcile_def)
  with u UpdateProjectList_adds [of w m e] show ?thesis by simp
qed

lemma Execute_local_adds: "adds no_fetch w (snd (Execute_local opt e w))"
  by (auto simp: Execute_local_def Let_def no_fetch_def list_all_iff intro!: adds_emit)

lemma Execute_mirror_adds: "adds no_fetch w (snd (Execute_mirror m w))"
  by (auto simp: Execute_mirror_def adds_refl)

lemma Execute_notice_adds: "adds no_fetch w (snd (Execute_notice m w))"
  by (auto simp: Execute_notice_def no_fetch_def adds_refl intro!: adds_emit)

text \<open>In a local-only run the fetch step does nothing.\<close>

lemma Execute_fetch_adds:
  "adds (\<lambda>ev. local_only opt \<longrightarrow> no_fetch ev) w (snd (Execute_fetch opt e m w))"
proof (cases "local_only opt")
  case True
  then show ?thesis by (simp add: Execute_fetch_def adds_refl)
next
  case False
  obtain r1 w1 where f: "Fetch (self_jobs opt) (to_fetch e m) opt w = (r1, w1)"
    by (cases "Fetch (self_jobs opt) (to_fetch e m) opt w") auto
  from Fetch_emits [where mp = "[]" and rp = "[]" and ps = "to_fetch e m" and w = w
                      and j = "self_jobs opt" and opt = opt] f
  have a: "adds (\<lambda>ev. True) w w1" by (auto dest: emits_adds)
  obtain r2 w2 where p: "PostRepoFetch e (repoProject m) (no_repo_verify opt) False w1 = (r2, w2)"
    by (cases "PostRepoFetch e (repoProject m) (no_repo_verify opt) False w1") auto
  have "adds (\<lambda>ev. True) w1 w2"
    using PostRepoFetch_emits [where mp = "[]" and p = "repoProject m" and w = w1 and e = e
             and nv = "no_repo_verify opt" and vb = False] p
    by (auto dest: emits_adds)
  with a have b: "adds (\<lambda>ev. True) w w2" by (rule adds_trans)
  have c: "adds (\<lambda>ev. True) w (snd (Execute_fetch opt e m w))"
    using False f p a b by (cases r1; cases r2) (auto simp: Execute_fetch_def)
  show ?thesis by (rule adds_mono [OF c]) (simp add: False)
qed

lemma run_steps_adds:
  "list_all (\<lambda>s. \<forall>w. adds P w (snd (s w))) ss \<Longrightarrow> adds P w (snd (run_steps ss w))"
proof (induction ss arbitrary: w)
  case Nil
  then show ?case by (simp add: adds_refl)
next
  case (Cons s ss)
  obtain r w1 where s: "s w = (r, w1)" by (cases "s w") auto
  have a: "adds P w w1" using Cons.prems s by (auto dest: spec [of _ w])
  have "adds P w1 (snd (run_steps ss w1))" using Cons by simp
  with a have "adds P w (snd (run_steps ss w1))" by (rule adds_trans)
  with a s show ?case by (cases r) auto
qed

lemma Execute_tail_adds:
  "adds (\<lambda>ev. local_only opt \<longrightarrow> no_fetch ev) w
     (snd (run_steps [Execute_fetch opt e m, Execute_mirror m, Execute_reconcile e m,
                      Execute_local opt e, Execute_notice m] w))"
proof (rule run_steps_adds)
  have q: "\<And>w w'. adds no_fetch w w' \<Longrightarrow> adds (\<lambda>ev. local_only opt \<longrightarrow> no_fetch ev) w w'"
    by (erule adds_mono) simp
  show "list_all (\<lambda>s. \<forall>w. adds (\<lambda>ev. local_only opt \<longrightarrow> no_fetch ev) w (snd (s w)))
     [Execute_fetch opt e m, Execute_mirror m, Execute_reconcile e m,
      Execute_local opt e, Execute_notice m]"
    by (simp add: Execute_fetch_adds q Execute_mirror_adds Execute_reconcile_adds
                  Execute_local_adds Execute_notice_adds)
qed

lemma Execute_head_adds:
  "adds no_fetch w
     (snd (run_steps [Execute_flags opt, Execute_smart_sync opt e m, Execute_presync opt m] w))"
proof (rule run_steps_adds)
  show "list_all (\<lambda>s. \<forall>w. adds no_fetch w (snd (s w)))
          [Execute_flags opt, Execute_smart_sync opt e m, Execute_presync opt m]"
    using Execute_flags_emits [where mp = "[]" and rp = "[]" and opt = opt]
      Execute_smart_sync_emits [where mp = "[]" and rp = "[]" and opt = opt and e = e and m = m]
      Execute_presync_emits [where mp = "[]" and rp = "[]" and opt = opt and m = m]
    by (auto intro: emits_adds_no_fetch)
qed

text \<open>
  C9 (as amended). In every run that gets to line 313 (in the world \<open>w3\<close>, after the
  flag check, smart sync and the pre-sync calls, none of which fetches), the manifest step
  adds to the trace the network fetch of the manifest project exactly when the local-only
  flag is unset, and then the local-update pass of the manifest project (a ledger,
  \<^verbatim>\<open>Sync_LocalHalf\<close>, \<^verbatim>\<open>Finish\<close>) exactly when the manifest project has changes, whatever
  the local-only flag; it adds nothing else. When the ledger fails the run ends there in
  \<^verbatim>\<open>sys.exit(1)\<close>; otherwise the manifest is unloaded (when there were changes) and the
  run goes on with the fetch step. A local-only run makes no network fetch at all, of the
  manifest project or of any other.
\<close>

theorem Execute_manifest_update:
  assumes "run_steps [Execute_flags opt, Execute_smart_sync opt e m, Execute_presync opt m] w
             = (None, w3)"
  shows
   "(let mp = name (manifestProject m);
         fetch = (if local_only opt then [] else [Call_Sync_NetworkHalf mp]);
         update = (if HasChanges (manifestProject m)
                   then [New_SyncBuffer False, Call_Sync_LocalHalf mp, Call_Finish]
                        @ (if manifest_Finish e then [Call_Unload] else [])
                   else []);
         failed = (HasChanges (manifestProject m) \<and> \<not> manifest_Finish e)
     in Execute_manifest opt e m w3
          = (if failed then Some (SysExit 1) else None, emit (fetch @ update) w3)
      \<and> Execute opt e m w
          = (if failed then (SysExit 1, emit (fetch @ update) w3)
             else (case run_steps [Execute_fetch opt e m, Execute_mirror m,
                                   Execute_reconcile e m, Execute_local opt e,
                                   Execute_notice m] (emit (fetch @ update) w3) of
                     (None, w') \<Rightarrow> (Return (), w')
                   | (Some r, w') \<Rightarrow> (r, w')))
      \<and> network_fetches (events_of w3 (snd (Execute_manifest opt e m w3)))
          = (if local_only opt then [] else [mp])
      \<and> local_updates (events_of w3 (snd (Execute_manifest opt e m w3)))
          = (if HasChanges (manifestProject m) then [mp] else [])
      \<and> (\<exists>es0 es. trace w3 = trace w @ es0 \<and> network_fetches es0 = []
            \<and> trace (snd (Execute opt e m w)) = trace w3 @ fetch @ update @ es
            \<and> (if failed then es = [] else True)
            \<and> (if local_only opt then network_fetches es = [] else True))
      \<and> (if local_only opt
         then network_fetches (events_of w (snd (Execute opt e m w))) = [] else True))"
proof -
  let ?rest = "[Execute_fetch opt e m, Execute_mirror m, Execute_reconcile e m,
                Execute_local opt e, Execute_notice m]"
  define mp where "mp = name (manifestProject m)"
  define fetch where "fetch = (if local_only opt then [] else [Call_Sync_NetworkHalf mp])"
  define update where "update = (if HasChanges (manifestProject m)
                   then [New_SyncBuffer False, Call_Sync_LocalHalf mp, Call_Finish]
                        @ (if manifest_Finish e then [Call_Unload] else [])
                   else [])"
  define failed where "failed = (HasChanges (manifestProject m) \<and> \<not> manifest_Finish e)"
  define w4 where "w4 = emit (fetch @ update) w3"
  have ex: "Execute opt e m w =
      (case run_steps (Execute_manifest opt e m # ?rest) w3 of
         (None, w') \<Rightarrow> (Return (), w') | (Some r, w') \<Rightarrow> (r, w'))"
    using run_steps_append [of "[Execute_flags opt, Execute_smart_sync opt e m, Execute_presync opt m]"
             "Execute_manifest opt e m # ?rest" w] assms
    by (simp add: Execute_def)
  have m4: "Execute_manifest opt e m w3 = (if failed then Some (SysExit 1) else None, w4)"
    by (auto simp: Execute_manifest_def Let_def failed_def w4_def fetch_def update_def mp_def)
  have e4: "Execute opt e m w
          = (if failed then (SysExit 1, w4)
             else (case run_steps ?rest w4 of
                     (None, w') \<Rightarrow> (Return (), w')
                   | (Some r, w') \<Rightarrow> (r, w')))"
    unfolding ex using m4 by simp
  have nf: "network_fetches (events_of w3 (snd (Execute_manifest opt e m w3)))
          = (if local_only opt then [] else [mp])"
    unfolding m4 by (simp add: w4_def fetch_def update_def)
  have lu: "local_updates (events_of w3 (snd (Execute_manifest opt e m w3)))
          = (if HasChanges (manifestProject m) then [mp] else [])"
    unfolding m4 by (simp add: w4_def fetch_def update_def)
  from Execute_head_adds [of w opt e m] assms obtain es0 where
    es0: "trace w3 = trace w @ es0" "network_fetches es0 = []"
    unfolding adds_def by (auto simp: no_fetch_list)
  have "\<exists>es. trace (snd (Execute opt e m w)) = trace w4 @ es
            \<and> (if failed then es = [] else True)
            \<and> (if local_only opt then network_fetches es = [] else True)"
  proof (cases failed)
    case True
    then show ?thesis unfolding e4 by simp
  next
    case False
    obtain r w' where r: "run_steps ?rest w4 = (r, w')" by (cases "run_steps ?rest w4") auto
    from Execute_tail_adds [of opt w4 e m] r obtain es where
      es: "trace w' = trace w4 @ es" "list_all (\<lambda>ev. local_only opt \<longrightarrow> no_fetch ev) es"
      unfolding adds_def by auto
    have "local_only opt \<Longrightarrow> network_fetches es = []"
      using es(2) no_fetch_list [of es] by (simp add: list_all_iff)
    moreover have "snd (Execute opt e m w) = w'"
      unfolding e4 using False r by (cases r) auto
    ultimately show ?thesis using es(1) False by auto
  qed
  then obtain es where es: "trace (snd (Execute opt e m w)) = trace w4 @ es"
    "if failed then es = [] else True"
    "if local_only opt then network_fetches es = [] else True" by blast
  have t: "trace (snd (Execute opt e m w)) = trace w3 @ fetch @ update @ es"
    using es(1) by (simp add: w4_def)
  have all: "local_only opt \<Longrightarrow> network_fetches (events_of w (snd (Execute opt e m w))) = []"
  proof -
    assume l: "local_only opt"
    have "events_of w (snd (Execute opt e m w)) = es0 @ fetch @ update @ es"
      using t es0(1) by (simp add: events_of_def)
    then show ?thesis using es0(2) es(3) l by (simp add: fetch_def update_def)
  qed
  have ex2: "\<exists>es0 es. trace w3 = trace w @ es0 \<and> network_fetches es0 = []
            \<and> trace (snd (Execute opt e m w)) = trace w3 @ fetch @ update @ es
            \<and> (if failed then es = [] else True)
            \<and> (if local_only opt then network_fetches es = [] else True)"
    using es0 t es(2,3) by blast
  show ?thesis
    unfolding Let_def
    using m4 e4 nf lu ex2 all
    unfolding w4_def failed_def update_def fetch_def mp_def
    by (intro conjI) simp_all
qed

subsection \<open>The self-upgrade check and Execute: concrete runs\<close>

lemmas example_defs =
  ex_project_def ex_manifest_def ex_world_def ex_options_def ex_env_def ex_repo_def
  ex_manifest_changed_def one_per_line_def dirty_only_def

lemmas re_eval =
  untagged_re_def is_digit_def is_hex_lower_def newline_def




text \<open>
  The cases of the self-upgrade check on the project of repo itself: verification
  switched off; no trust directory; the description \<open>v1.0-3-gabc123\<close> of three commits
  after a tag; the tag \<open>v1.0\<close> verified with exit status 0; the same tag with exit
  status 1.
\<close>

theorem PostRepoFetch_cases_witness:
  "fst (PostRepoFetch (ex_env []) ex_repo True False (ex_world {} []))
     = Raise (RepoChangedException [''--repo-upgraded''])
   \<and> subprocess_runs (events_of (ex_world {} [])
        (snd (PostRepoFetch (ex_env []) ex_repo True False (ex_world {} [])))) = []
   \<and> fst (PostRepoFetch ((ex_env [])\<lparr>gpg_dir_exists := False\<rparr>) ex_repo False False (ex_world {} []))
     = Raise (RepoChangedException [''--repo-upgraded''])
   \<and> subprocess_runs (events_of (ex_world {} [])
        (snd (PostRepoFetch ((ex_env [])\<lparr>gpg_dir_exists := False\<rparr>) ex_repo False False
               (ex_world {} [])))) = []
   \<and> fst (PostRepoFetch (ex_env []) (ex_repo\<lparr>describe_revision := Returns ''v1.0-3-gabc123''\<rparr>)
            False False (ex_world {} [])) = Return ()
   \<and> local_updates (events_of (ex_world {} [])
        (snd (PostRepoFetch (ex_env []) (ex_repo\<lparr>describe_revision := Returns ''v1.0-3-gabc123''\<rparr>)
            False False (ex_world {} [])))) = []
   \<and> subprocess_runs (events_of (ex_world {} [])
        (snd (PostRepoFetch (ex_env []) (ex_repo\<lparr>describe_revision := Returns ''v1.0-3-gabc123''\<rparr>)
            False False (ex_world {} [])))) = []
   \<and> fst (PostRepoFetch (ex_env []) ex_repo False False (ex_world {} []))
     = Raise (RepoChangedException [''--repo-upgraded''])
   \<and> subprocess_runs (events_of (ex_world {} [])
        (snd (PostRepoFetch (ex_env []) ex_repo False False (ex_world {} []))))
     = [[''git'', ''tag'', ''-v'', ''v1.0'']]
   \<and> local_updates (events_of (ex_world {} [])
        (snd (PostRepoFetch (ex_env []) ex_repo False False (ex_world {} []))))
     = [''.repo/repo'']
   \<and> fst (PostRepoFetch ((ex_env [])\<lparr>tag_verify_exit := 1\<rparr>) ex_repo False False (ex_world {} []))
     = Return ()"
proof -
  have h: "HasChanges ex_repo"
    and h2: "HasChanges (ex_repo\<lparr>describe_revision := Returns ''v1.0-3-gabc123''\<rparr>)"
    by (simp_all add: ex_repo_def)
  have u: "re_match untagged_re ''v1.0-3-gabc123''" by (simp add: re_eval)
  have t: "\<not> re_match untagged_re ''v1.0''" by (simp add: re_eval)
  have d: "describe_revision ex_repo = Returns ''v1.0''" "name ex_repo = ''.repo/repo''"
    by (simp_all add: ex_repo_def ex_project_def)
  have e: "gpg_dir_exists (ex_env [])" "repo_Finish (ex_env [])" "tag_verify_exit (ex_env []) = 0"
    by (simp_all add: ex_env_def)
  show ?thesis
    using PostRepoFetch_cases [OF h, of "ex_env []" True False "ex_world {} []"]
      PostRepoFetch_cases [OF h, of "(ex_env [])\<lparr>gpg_dir_exists := False\<rparr>" False False "ex_world {} []"]
      PostRepoFetch_cases [OF h2, of "ex_env []" False False "ex_world {} []"]
      PostRepoFetch_cases [OF h, of "ex_env []" False False "ex_world {} []"]
      PostRepoFetch_cases [OF h, of "(ex_env [])\<lparr>tag_verify_exit := 1\<rparr>" False False "ex_world {} []"]
      u t d e
    by (simp add: Let_def GIT_def)
qed


text \<open>
  Smart sync with no manifest server declared, with a server that answers
  \<^verbatim>\<open>success = False\<close>, and with a server that cannot be reached.
\<close>

theorem Execute_smart_sync_errors_witness:
  "fst (Execute (ex_options\<lparr>smart_sync := True\<rparr>) (ex_env []) (ex_manifest [''a''])
          (ex_world {''a''} [''a''])) = SysExit 1
   \<and> snd (Execute (ex_options\<lparr>smart_sync := True\<rparr>) (ex_env []) (ex_manifest [''a''])
          (ex_world {''a''} [''a'']))
       = emit [Print_stderr ''error: cannot smart sync: no manifest server defined in manifest'']
           (ex_world {''a''} [''a''])
   \<and> fst (Execute (ex_options\<lparr>smart_sync := True\<rparr>)
            ((ex_env [])\<lparr>GetApprovedManifest := Returns (False, ''no approved build'')\<rparr>)
            ((ex_manifest [''a''])\<lparr>manifest_server := ''http://build''\<rparr>)
            (ex_world {''a''} [''a''])) = SysExit 1
   \<and> fst (Execute (ex_options\<lparr>smart_sync := True\<rparr>)
            ((ex_env [])\<lparr>GetApprovedManifest := Raises SocketError\<rparr>)
            ((ex_manifest [''a''])\<lparr>manifest_server := ''http://build''\<rparr>)
            (ex_world {''a''} [''a''])) = SysExit 1
   \<and> trace (snd (Execute (ex_options\<lparr>smart_sync := True\<rparr>)
            ((ex_env [])\<lparr>GetApprovedManifest := Returns (False, ''no approved build'')\<rparr>)
            ((ex_manifest [''a''])\<lparr>manifest_server := ''http://build''\<rparr>)
            (ex_world {''a''} [''a''])))
       = [Call_GetApprovedManifest ''master'' None, Print_stderr ''error: no approved build'']"
proof -
  have h: "smart_sync (ex_options\<lparr>smart_sync := True\<rparr>)" by simp
  have a: "fst (Execute (ex_options\<lparr>smart_sync := True\<rparr>) (ex_env []) (ex_manifest [''a''])
          (ex_world {''a''} [''a''])) = SysExit 1"
    using Execute_smart_sync_errors [OF h, of "ex_manifest [''a'']" "ex_env []" "ex_world {''a''} [''a'']"]
    by (simp add: ex_manifest_def)
  have b: "fst (Execute (ex_options\<lparr>smart_sync := True\<rparr>)
            ((ex_env [])\<lparr>GetApprovedManifest := Returns (False, ''no approved build'')\<rparr>)
            ((ex_manifest [''a''])\<lparr>manifest_server := ''http://build''\<rparr>)
            (ex_world {''a''} [''a''])) = SysExit 1"
    using Execute_smart_sync_errors [OF h, of "(ex_manifest [''a''])\<lparr>manifest_server := ''http://build''\<rparr>"
        "(ex_env [])\<lparr>GetApprovedManifest := Returns (False, ''no approved build'')\<rparr>" "ex_world {''a''} [''a'']"]
    by simp
  have c: "fst (Execute (ex_options\<lparr>smart_sync := True\<rparr>)
            ((ex_env [])\<lparr>GetApprovedManifest := Raises SocketError\<rparr>)
            ((ex_manifest [''a''])\<lparr>manifest_server := ''http://build''\<rparr>)
            (ex_world {''a''} [''a''])) = SysExit 1"
    using Execute_smart_sync_errors [OF h, of "(ex_manifest [''a''])\<lparr>manifest_server := ''http://build''\<rparr>"
        "(ex_env [])\<lparr>GetApprovedManifest := Raises SocketError\<rparr>" "ex_world {''a''} [''a'']"]
    by simp
  show ?thesis using a b c
    by (simp add: Execute_def Execute_flags_def Execute_smart_sync_def example_defs
          strip_R_HEADS_def R_HEADS_def startswith_def emit_def Let_def)
qed


text \<open>
  A network-only run: the obsolete tree \<open>b\<close> stays on disk, project.list keeps its
  content, and the manifest project and \<open>a\<close> are fetched once each.
\<close>

theorem Execute_network_only_witness:
  "fst (Execute (ex_options\<lparr>network_only := True\<rparr>) (ex_env [ex_project ''a'' True])
          (ex_manifest [''a'']) (ex_world {''a'', ''b''} [''a'', ''b''])) = Return ()
   \<and> on_disk (snd (Execute (ex_options\<lparr>network_only := True\<rparr>) (ex_env [ex_project ''a'' True])
          (ex_manifest [''a'']) (ex_world {''a'', ''b''} [''a'', ''b''])))
       = {[''w''], [''w'', ''a''], [''w'', ''b'']}
   \<and> project_list (snd (Execute (ex_options\<lparr>network_only := True\<rparr>) (ex_env [ex_project ''a'' True])
          (ex_manifest [''a'']) (ex_world {''a'', ''b''} [''a'', ''b''])))
       = Some (one_per_line [''a'', ''b''])
   \<and> network_fetches (trace (snd (Execute (ex_options\<lparr>network_only := True\<rparr>)
          (ex_env [ex_project ''a'' True]) (ex_manifest [''a''])
          (ex_world {''a'', ''b''} [''a'', ''b'']))))
       = [''.repo/manifests'', ''a'']"
proof -
  have h: "network_only (ex_options\<lparr>network_only := True\<rparr>)" by simp
  from Execute_network_only [OF h, of "ex_env [ex_project ''a'' True]" "ex_manifest [''a'']"
         "ex_world {''a'', ''b''} [''a'', ''b'']"]
  obtain es r where "Execute (ex_options\<lparr>network_only := True\<rparr>) (ex_env [ex_project ''a'' True])
          (ex_manifest [''a'']) (ex_world {''a'', ''b''} [''a'', ''b''])
      = (r, emit es (ex_world {''a'', ''b''} [''a'', ''b'']))" by blast
  then have d: "on_disk (snd (Execute (ex_options\<lparr>network_only := True\<rparr>) (ex_env [ex_project ''a'' True])
          (ex_manifest [''a'']) (ex_world {''a'', ''b''} [''a'', ''b''])))
       = {[''w''], [''w'', ''a''], [''w'', ''b'']}"
    "project_list (snd (Execute (ex_options\<lparr>network_only := True\<rparr>) (ex_env [ex_project ''a'' True])
          (ex_manifest [''a'']) (ex_world {''a'', ''b''} [''a'', ''b''])))
       = Some (one_per_line [''a'', ''b''])"
    by (simp_all add: ex_world_def slash_def)
  have "fst (Execute (ex_options\<lparr>network_only := True\<rparr>) (ex_env [ex_project ''a'' True])
          (ex_manifest [''a'']) (ex_world {''a'', ''b''} [''a'', ''b''])) = Return ()
     \<and> network_fetches (trace (snd (Execute (ex_options\<lparr>network_only := True\<rparr>)
          (ex_env [ex_project ''a'' True]) (ex_manifest [''a''])
          (ex_world {''a'', ''b''} [''a'', ''b'']))))
       = [''.repo/manifests'', ''a'']"
    by (simp add: execute_eval fetch_eval)
  with d show ?thesis by simp
qed


text \<open>
  C6 as stated fails: in a run with the network-only flag set and the local-only flag
  unset, the manifest project has changes, its working tree is updated by
  \<^verbatim>\<open>Sync_LocalHalf\<close> and \<^verbatim>\<open>Execute\<close> returns; and in such a run where the fetch of
  \<open>a\<close> fails, \<^verbatim>\<open>Execute\<close> does not return but ends in \<^verbatim>\<open>sys.exit(1)\<close>.
\<close>

theorem Execute_network_only_manifest_updated:
  "network_only (ex_options\<lparr>network_only := True\<rparr>)
   \<and> \<not> local_only (ex_options\<lparr>network_only := True\<rparr>)
   \<and> fst (Execute (ex_options\<lparr>network_only := True\<rparr>) (ex_env [ex_project ''a'' True])
          ex_manifest_changed (ex_world {''a''} [''a''])) = Return ()
   \<and> local_updates (trace (snd (Execute (ex_options\<lparr>network_only := True\<rparr>)
          (ex_env [ex_project ''a'' True]) ex_manifest_changed (ex_world {''a''} [''a'']))))
       = [''.repo/manifests'']
   \<and> fst (Execute (ex_options\<lparr>network_only := True\<rparr>) (ex_env [ex_project ''a'' False])
          (ex_manifest [''a'']) (ex_world {''a''} [''a''])) = SysExit 1"
  by (simp add: execute_eval fetch_eval ex_manifest_changed_def)


text \<open>
  C9 as stated fails: in a run with the local-only flag set, the manifest project has
  changes, and its local-update pass is made (a ledger, \<^verbatim>\<open>Sync_LocalHalf\<close>,
  \<^verbatim>\<open>Finish\<close>, the unloading of the manifest), with no network fetch at all.
\<close>

theorem Execute_local_only_manifest_updated:
  "local_only (ex_options\<lparr>local_only := True\<rparr>)
   \<and> HasChanges (manifestProject ex_manifest_changed)
   \<and> fst (Execute (ex_options\<lparr>local_only := True\<rparr>) (ex_env [ex_project ''a'' True])
          ex_manifest_changed (ex_world {''a''} [''a''])) = Return ()
   \<and> trace (snd (Execute (ex_options\<lparr>local_only := True\<rparr>) (ex_env [ex_project ''a'' True])
          ex_manifest_changed (ex_world {''a''} [''a''])))
       = [Call_PreSync ''.repo/repo'', Call_PreSync ''.repo/manifests'',
          New_SyncBuffer False, Call_Sync_LocalHalf ''.repo/manifests'', Call_Finish, Call_Unload,
          Write_project_list (one_per_line [''a'']),
          New_SyncBuffer False, Progress_update, Call_Sync_LocalHalf ''a'', Progress_end,
          Print_stderr [], Call_Finish]"
  by (simp add: execute_eval fetch_eval reconcile_eval ex_manifest_changed_def)


text \<open>A local-only run whose manifest project has changes.\<close>

theorem Execute_manifest_update_witness:
  "Execute_manifest (ex_options\<lparr>local_only := True\<rparr>) (ex_env [ex_project ''a'' True])
       ex_manifest_changed
       (emit [Call_PreSync ''.repo/repo'', Call_PreSync ''.repo/manifests'']
          (ex_world {''a''} [''a'']))
     = (None,
        emit [Call_PreSync ''.repo/repo'', Call_PreSync ''.repo/manifests'',
              New_SyncBuffer False, Call_Sync_LocalHalf ''.repo/manifests'', Call_Finish,
              Call_Unload]
          (ex_world {''a''} [''a'']))
   \<and> local_updates (events_of
        (emit [Call_PreSync ''.repo/repo'', Call_PreSync ''.repo/manifests'']
           (ex_world {''a''} [''a'']))
        (snd (Execute_manifest (ex_options\<lparr>local_only := True\<rparr>) (ex_env [ex_project ''a'' True])
                ex_manifest_changed
                (emit [Call_PreSync ''.repo/repo'', Call_PreSync ''.repo/manifests'']
                   (ex_world {''a''} [''a''])))))
     = [''.repo/manifests'']
   \<and> network_fetches (events_of (ex_world {''a''} [''a''])
        (snd (Execute (ex_options\<lparr>local_only := True\<rparr>) (ex_env [ex_project ''a'' True])
                ex_manifest_changed (ex_world {''a''} [''a''])))) = []"
proof -
  have h: "run_steps [Execute_flags (ex_options\<lparr>local_only := True\<rparr>),
                      Execute_smart_sync (ex_options\<lparr>local_only := True\<rparr>)
                        (ex_env [ex_project ''a'' True]) ex_manifest_changed,
                      Execute_presync (ex_options\<lparr>local_only := True\<rparr>) ex_manifest_changed]
             (ex_world {''a''} [''a''])
           = (None, emit [Call_PreSync ''.repo/repo'', Call_PreSync ''.repo/manifests'']
                      (ex_world {''a''} [''a'']))"
    by (simp add: Execute_flags_def Execute_smart_sync_def Execute_presync_def example_defs Let_def)
  have l: "local_only (ex_options\<lparr>local_only := True\<rparr>)"
    and c: "HasChanges (manifestProject ex_manifest_changed)"
           "manifest_Finish (ex_env [ex_project ''a'' True])"
           "name (manifestProject ex_manifest_changed) = ''.repo/manifests''"
    by (simp_all add: example_defs)
  note t = Execute_manifest_update [OF h, unfolded Let_def]
  have a: "Execute_manifest (ex_options\<lparr>local_only := True\<rparr>) (ex_env [ex_project ''a'' True])
       ex_manifest_changed
       (emit [Call_PreSync ''.repo/repo'', Call_PreSync ''.repo/manifests'']
          (ex_world {''a''} [''a'']))
     = (None,
        emit [Call_PreSync ''.repo/repo'', Call_PreSync ''.repo/manifests'',
              New_SyncBuffer False, Call_Sync_LocalHalf ''.repo/manifests'', Call_Finish,
              Call_Unload]
          (ex_world {''a''} [''a'']))"
    using t [THEN conjunct1] l c by simp
  have b: "local_updates (events_of
        (emit [Call_PreSync ''.repo/repo'', Call_PreSync ''.repo/manifests'']
           (ex_world {''a''} [''a'']))
        (snd (Execute_manifest (ex_options\<lparr>local_only := True\<rparr>) (ex_env [ex_project ''a'' True])
                ex_manifest_changed
                (emit [Call_PreSync ''.repo/repo'', Call_PreSync ''.repo/manifests'']
                   (ex_world {''a''} [''a''])))))
     = [''.repo/manifests'']"
    using t [THEN conjunct2, THEN conjunct2, THEN conjunct2, THEN conjunct1] c by simp
  have d: "network_fetches (events_of (ex_world {''a''} [''a''])
        (snd (Execute (ex_options\<lparr>local_only := True\<rparr>) (ex_env [ex_project ''a'' True])
                ex_manifest_changed (ex_world {''a''} [''a''])))) = []"
    using t [THEN conjunct2, THEN conjunct2, THEN conjunct2, THEN conjunct2, THEN conjunct2] l
    by simp
  from a b d show ?thesis by (intro conjI)
qed

end
